theory Spec2Isabelle
  imports Complex_Main
begin

section \<open>Data model of the greedy planning engine\<close>

text \<open>
  The records follow the dataclasses of \<^verbatim>\<open>solvers/greedy_engine.py\<close>. Field names
  that several dataclasses share (\<^verbatim>\<open>date\<close>, \<^verbatim>\<open>dagdeel\<close>, \<^verbatim>\<open>service_id\<close>,
  \<^verbatim>\<open>employee_id\<close>, \<^verbatim>\<open>required_count\<close>, \<^verbatim>\<open>team\<close>, \<^verbatim>\<open>reason\<close>) carry a prefix
  naming their dataclass. Python \<^verbatim>\<open>str\<close> is \<open>string\<close>, Python \<^verbatim>\<open>int\<close> is \<open>int\<close>, a
  \<^verbatim>\<open>Dict[str, bool]\<close> is a map, a \<^verbatim>\<open>Set[str]\<close> is a set. Python floats are modelled
  as exact reals: rounding is outside the model.
\<close>

datatype SeverityLevel = CRITICAL | HIGH | MEDIUM | LOW

record RosteringRequirement =
  req_date :: string
  req_dagdeel :: string
  req_service_id :: string
  req_required_count :: int
  req_team :: string

record EmployeeCapability =
  employee_id :: string
  voornaam :: string
  achternaam :: string
  capable_services :: "string \<rightharpoonup> bool"
  available_dates :: "string set"
  team :: string
  max_shifts_per_week :: int
  current_shifts :: int

record FixedAssignment =
  fx_employee_id :: string
  fx_date :: string
  fx_dagdeel :: string
  fx_service_id :: string
  fx_reason :: string

record BlockedSlot =
  bl_employee_id :: string
  bl_date :: string
  bl_dagdeel :: string
  bl_reason :: string

record Assignment =
  assignment_id :: string
  a_employee_id :: string
  a_date :: string
  a_dagdeel :: string
  a_service_id :: string
  source :: string
  is_locked :: bool

record Bottleneck =
  bn_date :: string
  bn_dagdeel :: string
  bn_service_id :: string
  bn_required_count :: int
  placed_count :: int
  shortage :: int
  severity :: SeverityLevel
  reason :: string
  suggestions :: "string list"

record RosteringResult =
  roster :: "Assignment list"
  bottlenecks :: "Bottleneck list"
  coverage_rate :: real
  total_slots :: int
  assigned_slots :: int
  solve_time_seconds :: real
  timestamp :: string
  version :: string

text \<open>
  The exceptions the engine's own statements can raise on well-typed input: the
  \<^verbatim>\<open>KeyError\<close> of a dict subscript, the \<^verbatim>\<open>ZeroDivisionError\<close> of a quotient, and the
  \<^verbatim>\<open>ValueError\<close> of an integer too long to print.
\<close>

datatype error = KeyError string | ZeroDivisionError | ValueError

text \<open>
  The three readings of \<^verbatim>\<open>datetime.now()\<close> that one call of \<^verbatim>\<open>solve\<close> makes: at its
  start, when the elapsed time is taken, and in the default factory of \<^verbatim>\<open>timestamp\<close>
  (already formatted by \<^verbatim>\<open>isoformat\<close>).
\<close>

record clock =
  now_start :: real
  now_end :: real
  now_stamp :: string

text \<open>
  The mutable state of one invocation: the worker objects handed in by reference, and the
  locals \<^verbatim>\<open>roster\<close>, \<^verbatim>\<open>bottlenecks\<close> and \<^verbatim>\<open>assignment_count\<close>.
\<close>

record planner_state =
  s_employees :: "EmployeeCapability list"
  s_roster :: "Assignment list"
  s_bottlenecks :: "Bottleneck list"
  s_assignment_count :: "string \<rightharpoonup> int"

section \<open>Python primitives\<close>

text \<open>The decimal digits of a natural number.\<close>

fun str_nat :: "nat \<Rightarrow> string" where
  "str_nat n = (if n < 10 then [''0123456789'' ! n]
                else str_nat (n div 10) @ [''0123456789'' ! (n mod 10)])"

declare str_nat.simps [simp del]

text \<open>
  CPython's default limit on the number of digits of an integer that is converted to a
  string (\<^verbatim>\<open>sys.int_info.default_max_str_digits\<close>); the engine does not change it.
\<close>

definition int_max_str_digits :: nat where
  "int_max_str_digits = 4300"

text \<open>
  An integer formatted by an f-string: its sign and digits, or a \<^verbatim>\<open>ValueError\<close> when it
  has more digits than the limit.
\<close>

definition str_int :: "int \<Rightarrow> error + string" where
  "str_int i =
     (if length (str_nat (nat \<bar>i\<bar>)) > int_max_str_digits then Inl ValueError
      else Inr ((if i < 0 then ''-'' else []) @ str_nat (nat \<bar>i\<bar>)))"

text \<open>\<^verbatim>\<open>d[k] += 1\<close> on a dict: a \<^verbatim>\<open>KeyError\<close> when the key is absent.\<close>

definition incr :: "string \<Rightarrow> (string \<rightharpoonup> int) \<Rightarrow> error + (string \<rightharpoonup> int)" where
  "incr k d = (case d k of None \<Rightarrow> Inl (KeyError k) | Some n \<Rightarrow> Inr (d(k \<mapsto> n + 1)))"

text \<open>\<^verbatim>\<open>d.get(k, 0)\<close>.\<close>

definition get0 :: "(string \<rightharpoonup> int) \<Rightarrow> string \<Rightarrow> int" where
  "get0 d k = (case d k of None \<Rightarrow> 0 | Some n \<Rightarrow> n)"

text \<open>\<^verbatim>\<open>a / b\<close> on integers: true division, \<^verbatim>\<open>ZeroDivisionError\<close> on a zero divisor.\<close>

definition py_truediv :: "int \<Rightarrow> int \<Rightarrow> error + real" where
  "py_truediv a b = (if b = 0 then Inl ZeroDivisionError else Inr (real_of_int a / real_of_int b))"

section \<open>The engine\<close>

text \<open>\<^verbatim>\<open>Bottleneck.__post_init__\<close>: derives \<^verbatim>\<open>shortage\<close> and \<^verbatim>\<open>severity\<close>.\<close>

definition Bottleneck_post_init :: "Bottleneck \<Rightarrow> Bottleneck" where
  "Bottleneck_post_init b =
     (let b1 = b\<lparr>shortage := bn_required_count b - placed_count b\<rparr> in
      if shortage b1 \<ge> 2 then b1\<lparr>severity := CRITICAL\<rparr>
      else if shortage b1 = 1 then b1\<lparr>severity := HIGH\<rparr>
      else b1)"

text \<open>
  The generated constructor with the defaults of the dataclass; \<^verbatim>\<open>shortage\<close> is not an
  init field and holds no value before \<^verbatim>\<open>__post_init__\<close> sets it (0 here).
\<close>

definition new_Bottleneck :: "string \<Rightarrow> string \<Rightarrow> string \<Rightarrow> int \<Rightarrow> int \<Rightarrow> Bottleneck" where
  "new_Bottleneck d p s rc pc =
     Bottleneck_post_init
       \<lparr>bn_date = d, bn_dagdeel = p, bn_service_id = s, bn_required_count = rc,
        placed_count = pc, shortage = 0, severity = MEDIUM, reason = [], suggestions = []\<rparr>"

text \<open>\<^verbatim>\<open>_build_blocked_set\<close>.\<close>

definition build_blocked_set :: "BlockedSlot list \<Rightarrow> (string \<times> string \<times> string) set" where
  "build_blocked_set blocked_slots =
     set (map (\<lambda>b. (bl_employee_id b, bl_date b, bl_dagdeel b)) blocked_slots)"

text \<open>\<^verbatim>\<open>emp.capable_services.get(service_id, False)\<close>.\<close>

definition capable :: "EmployeeCapability \<Rightarrow> string \<Rightarrow> bool" where
  "capable emp sid = (case capable_services emp sid of None \<Rightarrow> False | Some b \<Rightarrow> b)"

text \<open>
  \<^verbatim>\<open>_is_valid_assignment\<close>. \<^verbatim>\<open>next(..., None)\<close> is \<open>find\<close>; a dataclass instance is
  always truthy, so \<^verbatim>\<open>not emp\<close> holds exactly for \<^verbatim>\<open>None\<close>.
\<close>

definition is_valid_assignment ::
  "string \<Rightarrow> string \<Rightarrow> string \<Rightarrow> string \<Rightarrow> EmployeeCapability list
     \<Rightarrow> (string \<times> string \<times> string) set \<Rightarrow> bool" where
  "is_valid_assignment eid d p sid employees blocked_set =
     (if (eid, d, p) \<in> blocked_set then False
      else case find (\<lambda>e. employee_id e = eid) employees of
             None \<Rightarrow> False
           | Some emp \<Rightarrow> capable emp sid)"

text \<open>\<^verbatim>\<open>_find_eligible_employees\<close>: one equation per \<^verbatim>\<open>continue\<close> of the loop body.\<close>

fun find_eligible_employees ::
  "string \<Rightarrow> string \<Rightarrow> string \<Rightarrow> EmployeeCapability list \<Rightarrow> Assignment list
     \<Rightarrow> (string \<times> string \<times> string) set \<Rightarrow> string \<Rightarrow> EmployeeCapability list" where
  "find_eligible_employees d p sid [] ros blocked_set team_filter = []"
| "find_eligible_employees d p sid (emp # emps) ros blocked_set team_filter =
     (if team_filter \<noteq> [] \<and> team emp \<noteq> team_filter
        then find_eligible_employees d p sid emps ros blocked_set team_filter
      else if \<not> capable emp sid
        then find_eligible_employees d p sid emps ros blocked_set team_filter
      else if (employee_id emp, d, p) \<in> blocked_set
        then find_eligible_employees d p sid emps ros blocked_set team_filter
      else if list_ex (\<lambda>a. a_employee_id a = employee_id emp \<and> a_date a = d \<and> a_dagdeel a = p) ros
        then find_eligible_employees d p sid emps ros blocked_set team_filter
      else emp # find_eligible_employees d p sid emps ros blocked_set team_filter)"

text \<open>\<^verbatim>\<open>_analyze_bottleneck_reason\<close>; the argument \<^verbatim>\<open>eligible\<close> is not read.\<close>

definition analyze_bottleneck_reason ::
  "RosteringRequirement \<Rightarrow> EmployeeCapability list \<Rightarrow> (string \<times> string \<times> string) set
     \<Rightarrow> EmployeeCapability list \<Rightarrow> string" where
  "analyze_bottleneck_reason req eligible blocked_set employees =
     (let capable_l = filter (\<lambda>e. capable e (req_service_id req)) employees in
      if capable_l = [] then ''No employees capable of this service''
      else
        let available =
              filter (\<lambda>e. (employee_id e, req_date req, req_dagdeel req) \<notin> blocked_set) capable_l in
        if available = [] then ''All capable employees are blocked/unavailable''
        else ''Insufficient eligible employees for this slot'')"

text \<open>
  \<^verbatim>\<open>_suggest_solutions\<close>. Each f-string that prints the shortage can raise the
  \<^verbatim>\<open>ValueError\<close> of \<^const>\<open>str_int\<close>.
\<close>

definition suggest_solutions ::
  "RosteringRequirement \<Rightarrow> Bottleneck \<Rightarrow> error + string list" where
  "suggest_solutions req b =
     (case (if shortage b = 1 then Inr [''Train 1 more employee in this service'']
            else if shortage b > 1 then
              (case str_int (shortage b) of
                 Inl e \<Rightarrow> Inl e
               | Inr n \<Rightarrow> Inr [''Train '' @ n @ '' more employees in this service''])
            else Inr []) of
        Inl e \<Rightarrow> Inl e
      | Inr s0 \<Rightarrow>
          (case str_int (shortage b) of
             Inl e \<Rightarrow> Inl e
           | Inr n \<Rightarrow>
               Inr (s0 @ [''Reduce requirement by '' @ n] @ [''Check for scheduling conflicts''])))"

text \<open>The Assignment built for a valid FixedAssignment (phase 1).\<close>

definition locked_assignment :: "FixedAssignment \<Rightarrow> Assignment" where
  "locked_assignment fx =
     \<lparr>assignment_id = fx_employee_id fx @ ''_'' @ fx_date fx @ ''_'' @ fx_dagdeel fx,
      a_employee_id = fx_employee_id fx, a_date = fx_date fx, a_dagdeel = fx_dagdeel fx,
      a_service_id = fx_service_id fx, source = ''pre-planned'', is_locked = True\<rparr>"

text \<open>The Assignment built for a candidate of a requirement (phase 2).\<close>

definition greedy_assignment :: "EmployeeCapability \<Rightarrow> RosteringRequirement \<Rightarrow> Assignment" where
  "greedy_assignment emp req =
     \<lparr>assignment_id = employee_id emp @ ''_'' @ req_date req @ ''_'' @ req_dagdeel req
                        @ ''_'' @ req_service_id req,
      a_employee_id = employee_id emp, a_date = req_date req, a_dagdeel = req_dagdeel req,
      a_service_id = req_service_id req, source = ''greedy'', is_locked = False\<rparr>"

text \<open>Phase 1, the loop over \<^verbatim>\<open>fixed_assignments\<close>.\<close>

fun lock_preplanned ::
  "(string \<times> string \<times> string) set \<Rightarrow> FixedAssignment list \<Rightarrow> planner_state
     \<Rightarrow> error + planner_state" where
  "lock_preplanned blocked_set [] st = Inr st"
| "lock_preplanned blocked_set (fx # fxs) st =
     (if is_valid_assignment (fx_employee_id fx) (fx_date fx) (fx_dagdeel fx) (fx_service_id fx)
           (s_employees st) blocked_set
      then
        (case incr (fx_employee_id fx) (s_assignment_count st) of
           Inl e \<Rightarrow> Inl e
         | Inr cnt \<Rightarrow>
             lock_preplanned blocked_set fxs
               (st\<lparr>s_roster := s_roster st @ [locked_assignment fx], s_assignment_count := cnt\<rparr>))
      else lock_preplanned blocked_set fxs st)"

text \<open>
  The number of roster entries for a slot: the list comprehension behind
  \<^verbatim>\<open>current_count\<close>.
\<close>

definition slot_count :: "Assignment list \<Rightarrow> string \<Rightarrow> string \<Rightarrow> string \<Rightarrow> int" where
  "slot_count ros d p sid =
     int (length (filter (\<lambda>a. a_date a = d \<and> a_dagdeel a = p \<and> a_service_id a = sid) ros))"

text \<open>
  The inner loop of phase 2 over the sorted candidates; the third component of the result
  is the local \<^verbatim>\<open>assigned\<close>.
\<close>

fun assign_loop ::
  "RosteringRequirement \<Rightarrow> int \<Rightarrow> EmployeeCapability list \<Rightarrow> planner_state \<Rightarrow> int
     \<Rightarrow> error + (planner_state \<times> int)" where
  "assign_loop req short [] st assigned = Inr (st, assigned)"
| "assign_loop req short (emp # emps) st assigned =
     (if assigned \<ge> short then Inr (st, assigned)
      else
        (case incr (employee_id emp) (s_assignment_count st) of
           Inl e \<Rightarrow> Inl e
         | Inr cnt \<Rightarrow>
             assign_loop req short emps
               (st\<lparr>s_roster := s_roster st @ [greedy_assignment emp req],
                   s_assignment_count := cnt\<rparr>)
               (assigned + 1)))"

text \<open>The body of the loop over \<^verbatim>\<open>requirements\<close>.\<close>

definition process_requirement ::
  "(string \<times> string \<times> string) set \<Rightarrow> RosteringRequirement \<Rightarrow> planner_state
     \<Rightarrow> error + planner_state" where
  "process_requirement blocked_set req st =
     (let current_count =
            slot_count (s_roster st) (req_date req) (req_dagdeel req) (req_service_id req) in
      if current_count < req_required_count req then
        (let short = req_required_count req - current_count;
             eligible = find_eligible_employees (req_date req) (req_dagdeel req)
                          (req_service_id req) (s_employees st) (s_roster st) blocked_set
                          (req_team req);
             eligible = sort_key (\<lambda>e. get0 (s_assignment_count st) (employee_id e)) eligible
         in
           case assign_loop req short eligible st 0 of
             Inl e \<Rightarrow> Inl e
           | Inr (st1, assigned) \<Rightarrow>
               if assigned < short then
                 (let b = new_Bottleneck (req_date req) (req_dagdeel req) (req_service_id req)
                            (req_required_count req) (current_count + assigned);
                      b = b\<lparr>reason := analyze_bottleneck_reason req eligible blocked_set
                                         (s_employees st1)\<rparr>
                  in case suggest_solutions req b of
                       Inl e \<Rightarrow> Inl e
                     | Inr sg \<Rightarrow>
                         Inr (st1\<lparr>s_bottlenecks :=
                                    s_bottlenecks st1 @ [b\<lparr>suggestions := sg\<rparr>]\<rparr>))
               else Inr st1)
      else Inr st)"

text \<open>Phase 2, the loop over \<^verbatim>\<open>requirements\<close>.\<close>

fun greedy_allocate ::
  "(string \<times> string \<times> string) set \<Rightarrow> RosteringRequirement list \<Rightarrow> planner_state
     \<Rightarrow> error + planner_state" where
  "greedy_allocate blocked_set [] st = Inr st"
| "greedy_allocate blocked_set (req # reqs) st =
     (case process_requirement blocked_set req st of
        Inl e \<Rightarrow> Inl e
      | Inr st1 \<Rightarrow> greedy_allocate blocked_set reqs st1)"

text \<open>The state at the start of phase 1.\<close>

definition initial_state :: "EmployeeCapability list \<Rightarrow> planner_state" where
  "initial_state employees =
     \<lparr>s_employees = employees, s_roster = [], s_bottlenecks = [],
      s_assignment_count = map_of (map (\<lambda>emp. (employee_id emp, 0)) employees)\<rparr>"

text \<open>Phases 1 and 2 of \<^verbatim>\<open>solve\<close>: the state when the metrics are computed.\<close>

definition solve_state ::
  "RosteringRequirement list \<Rightarrow> EmployeeCapability list \<Rightarrow> FixedAssignment list
     \<Rightarrow> BlockedSlot list \<Rightarrow> error + planner_state" where
  "solve_state requirements employees fixed_assignments blocked_slots =
     (let blocked_set = build_blocked_set blocked_slots in
      case lock_preplanned blocked_set fixed_assignments (initial_state employees) of
        Inl e \<Rightarrow> Inl e
      | Inr st1 \<Rightarrow> greedy_allocate blocked_set requirements st1)"

text \<open>The metrics and the construction of the result.\<close>

definition build_result ::
  "clock \<Rightarrow> RosteringRequirement list \<Rightarrow> planner_state \<Rightarrow> error + RosteringResult" where
  "build_result clk requirements st =
     (let total = int (length requirements);
          assigned = int (length (filter (\<lambda>b. shortage b = 0) (s_bottlenecks st)))
                       + (total - int (length (s_bottlenecks st)))
      in
        case (if total > 0
              then (case py_truediv assigned total of Inl e \<Rightarrow> Inl e | Inr q \<Rightarrow> Inr (q * 100))
              else Inr 0) of
          Inl e \<Rightarrow> Inl e
        | Inr cov \<Rightarrow>
            Inr \<lparr>roster = s_roster st, bottlenecks = s_bottlenecks st, coverage_rate = cov,
                 total_slots = total, assigned_slots = assigned,
                 solve_time_seconds = now_end clk - now_start clk,
                 timestamp = now_stamp clk, version = ''2.0.0-DRAAD194''\<rparr>)"

text \<open>
  \<^verbatim>\<open>GreedyPlanner.solve\<close>. The clock readings are an argument. The log calls are left
  out: they print list lengths, the coverage and the elapsed time only, and change no
  state.
\<close>

definition solve ::
  "RosteringRequirement list \<Rightarrow> EmployeeCapability list \<Rightarrow> FixedAssignment list
     \<Rightarrow> BlockedSlot list \<Rightarrow> clock \<Rightarrow> error + RosteringResult" where
  "solve requirements employees fixed_assignments blocked_slots clk =
     (case solve_state requirements employees fixed_assignments blocked_slots of
        Inl e \<Rightarrow> Inl e
      | Inr st \<Rightarrow> build_result clk requirements st)"

section \<open>Closed forms of the two phases\<close>

text \<open>
  The definitions of this section are proof devices: what each loop of the engine computes
  when no exception occurs. The lemmas below show that no \<^verbatim>\<open>KeyError\<close> occurs, and
  that the engine agrees with them whenever it returns.
\<close>

text \<open>An integer with more digits than the limit, and the text of one within it.\<close>

definition too_long :: "int \<Rightarrow> bool" where
  "too_long i = (length (str_nat (nat \<bar>i\<bar>)) > int_max_str_digits)"

definition decimal :: "int \<Rightarrow> string" where
  "decimal i = (if i < 0 then ''-'' else []) @ str_nat (nat \<bar>i\<bar>)"

definition suggest_pure :: "RosteringRequirement \<Rightarrow> Bottleneck \<Rightarrow> string list" where
  "suggest_pure req b =
     (if shortage b = 1 then [''Train 1 more employee in this service'']
      else if shortage b > 1
        then [''Train '' @ decimal (shortage b) @ '' more employees in this service'']
      else [])
     @ [''Reduce requirement by '' @ decimal (shortage b)] @ [''Check for scheduling conflicts'']"

text \<open>The effect of \<^verbatim>\<open>d[k] += 1\<close> on a present key.\<close>

definition bump :: "string \<Rightarrow> (string \<rightharpoonup> int) \<Rightarrow> (string \<rightharpoonup> int)" where
  "bump k d = d(k \<mapsto> get0 d k + 1)"

text \<open>Every worker of the list has an entry in \<^verbatim>\<open>assignment_count\<close>.\<close>

definition keys_ok :: "planner_state \<Rightarrow> bool" where
  "keys_ok st = (\<forall>e \<in> set (s_employees st). employee_id e \<in> dom (s_assignment_count st))"

definition valid_fixed ::
  "(string \<times> string \<times> string) set \<Rightarrow> EmployeeCapability list \<Rightarrow> FixedAssignment list
     \<Rightarrow> FixedAssignment list" where
  "valid_fixed B es fxs =
     filter (\<lambda>fx. is_valid_assignment (fx_employee_id fx) (fx_date fx) (fx_dagdeel fx)
                    (fx_service_id fx) es B) fxs"

definition lock_pure ::
  "(string \<times> string \<times> string) set \<Rightarrow> FixedAssignment list \<Rightarrow> planner_state \<Rightarrow> planner_state" where
  "lock_pure B fxs st =
     st\<lparr>s_roster := s_roster st @ map locked_assignment (valid_fixed B (s_employees st) fxs),
        s_assignment_count :=
          fold bump (map fx_employee_id (valid_fixed B (s_employees st) fxs))
            (s_assignment_count st)\<rparr>"

definition cur_count :: "RosteringRequirement \<Rightarrow> planner_state \<Rightarrow> int" where
  "cur_count req st =
     slot_count (s_roster st) (req_date req) (req_dagdeel req) (req_service_id req)"

text \<open>The sorted candidate list of a requirement, and the prefix of it that is committed.\<close>

definition candidates ::
  "(string \<times> string \<times> string) set \<Rightarrow> RosteringRequirement \<Rightarrow> planner_state
     \<Rightarrow> EmployeeCapability list" where
  "candidates B req st =
     sort_key (\<lambda>e. get0 (s_assignment_count st) (employee_id e))
       (find_eligible_employees (req_date req) (req_dagdeel req) (req_service_id req)
          (s_employees st) (s_roster st) B (req_team req))"

definition chosen ::
  "(string \<times> string \<times> string) set \<Rightarrow> RosteringRequirement \<Rightarrow> planner_state
     \<Rightarrow> EmployeeCapability list" where
  "chosen B req st =
     take (nat (req_required_count req
                  - slot_count (s_roster st) (req_date req) (req_dagdeel req) (req_service_id req)))
       (candidates B req st)"

definition shortfall ::
  "(string \<times> string \<times> string) set \<Rightarrow> RosteringRequirement \<Rightarrow> planner_state \<Rightarrow> bool" where
  "shortfall B req st =
     (cur_count req st < req_required_count req \<and>
      int (length (candidates B req st)) < req_required_count req - cur_count req st)"

definition bottleneck_for ::
  "(string \<times> string \<times> string) set \<Rightarrow> RosteringRequirement \<Rightarrow> planner_state \<Rightarrow> Bottleneck" where
  "bottleneck_for B req st =
     (let b = new_Bottleneck (req_date req) (req_dagdeel req) (req_service_id req)
                (req_required_count req) (cur_count req st + int (length (chosen B req st)));
          b = b\<lparr>reason := analyze_bottleneck_reason req (candidates B req st) B (s_employees st)\<rparr>
      in b\<lparr>suggestions := suggest_pure req b\<rparr>)"

definition process_pure ::
  "(string \<times> string \<times> string) set \<Rightarrow> RosteringRequirement \<Rightarrow> planner_state \<Rightarrow> planner_state" where
  "process_pure B req st =
     (let st1 = st\<lparr>s_roster := s_roster st @ map (\<lambda>e. greedy_assignment e req) (chosen B req st),
                   s_assignment_count :=
                     fold bump (map employee_id (chosen B req st)) (s_assignment_count st)\<rparr>
      in if shortfall B req st
         then st1\<lparr>s_bottlenecks := s_bottlenecks st @ [bottleneck_for B req st]\<rparr>
         else st1)"

text \<open>
  A requirement whose shortfall is too long to print, and a list of requirements that
  meets one on its way.
\<close>

definition overflows ::
  "(string \<times> string \<times> string) set \<Rightarrow> RosteringRequirement \<Rightarrow> planner_state \<Rightarrow> bool" where
  "overflows B req st =
     (shortfall B req st \<and>
      too_long (req_required_count req
                  - (cur_count req st + int (length (chosen B req st)))))"

fun any_overflow ::
  "(string \<times> string \<times> string) set \<Rightarrow> RosteringRequirement list \<Rightarrow> planner_state \<Rightarrow> bool" where
  "any_overflow B [] st = False"
| "any_overflow B (req # reqs) st =
     (overflows B req st \<or> any_overflow B reqs (process_pure B req st))"

definition final_state ::
  "RosteringRequirement list \<Rightarrow> EmployeeCapability list \<Rightarrow> FixedAssignment list
     \<Rightarrow> BlockedSlot list \<Rightarrow> planner_state" where
  "final_state reqs es fxs bls =
     fold (process_pure (build_blocked_set bls)) reqs
       (lock_pure (build_blocked_set bls) fxs (initial_state es))"

text \<open>The coverage figure of the result, as the metrics compute it.\<close>

definition coverage_of :: "int \<Rightarrow> int \<Rightarrow> real" where
  "coverage_of n_assigned n_total =
     (if n_total > 0 then real_of_int n_assigned / real_of_int n_total * 100 else 0)"

section \<open>A sample invocation\<close>

text \<open>
  Two workers who can both do service \<open>S\<close>, one pre-planned assignment for the first of
  them, and one requirement of three workers for the same slot.
\<close>

definition ex_e1 :: EmployeeCapability where
  "ex_e1 = \<lparr>employee_id = ''e1'', voornaam = ''An'', achternaam = ''Bos'',
            capable_services = [''S'' \<mapsto> True], available_dates = {}, team = [],
            max_shifts_per_week = 0, current_shifts = 0\<rparr>"

definition ex_e2 :: EmployeeCapability where
  "ex_e2 = \<lparr>employee_id = ''e2'', voornaam = ''Cor'', achternaam = ''Dam'',
            capable_services = [''S'' \<mapsto> True], available_dates = {}, team = [],
            max_shifts_per_week = 40, current_shifts = 0\<rparr>"

definition ex_req :: RosteringRequirement where
  "ex_req = \<lparr>req_date = ''2024-01-01'', req_dagdeel = ''ochtend'', req_service_id = ''S'',
             req_required_count = 3, req_team = []\<rparr>"

definition ex_fixed :: FixedAssignment where
  "ex_fixed = \<lparr>fx_employee_id = ''e1'', fx_date = ''2024-01-01'', fx_dagdeel = ''ochtend'',
               fx_service_id = ''S'', fx_reason = ''pre-planned''\<rparr>"

definition ex_clock :: clock where
  "ex_clock = \<lparr>now_start = 0, now_end = 1, now_stamp = ''2024-01-01T00:00:01''\<rparr>"

definition ex_clock2 :: clock where
  "ex_clock2 = \<lparr>now_start = 5, now_end = 8, now_stamp = ''2024-01-02T00:00:08''\<rparr>"

definition ex_roster :: "Assignment list" where
  "ex_roster =
     [\<lparr>assignment_id = ''e1_2024-01-01_ochtend'', a_employee_id = ''e1'',
       a_date = ''2024-01-01'', a_dagdeel = ''ochtend'', a_service_id = ''S'',
       source = ''pre-planned'', is_locked = True\<rparr>,
      \<lparr>assignment_id = ''e2_2024-01-01_ochtend_S'', a_employee_id = ''e2'',
       a_date = ''2024-01-01'', a_dagdeel = ''ochtend'', a_service_id = ''S'',
       source = ''greedy'', is_locked = False\<rparr>]"

definition ex_bottleneck :: Bottleneck where
  "ex_bottleneck =
     \<lparr>bn_date = ''2024-01-01'', bn_dagdeel = ''ochtend'', bn_service_id = ''S'',
      bn_required_count = 3, placed_count = 2, shortage = 1, severity = HIGH,
      reason = ''Insufficient eligible employees for this slot'',
      suggestions = [''Train 1 more employee in this service'', ''Reduce requirement by 1'',
                     ''Check for scheduling conflicts'']\<rparr>"

definition ex_result :: RosteringResult where
  "ex_result =
     \<lparr>roster = ex_roster, bottlenecks = [ex_bottleneck], coverage_rate = 0, total_slots = 1,
      assigned_slots = 0, solve_time_seconds = 1, timestamp = ''2024-01-01T00:00:01'',
      version = ''2.0.0-DRAAD194''\<rparr>"

text \<open>Further sample data: a requirement the pre-planned assignment already meets, and a
  run without any worker.\<close>

definition ex_req_met :: RosteringRequirement where
  "ex_req_met = ex_req\<lparr>req_required_count := 1\<rparr>"

definition ex_result2 :: RosteringResult where
  "ex_result2 = ex_result\<lparr>coverage_rate := 50, total_slots := 2, assigned_slots := 1\<rparr>"

text \<open>
  The classification of a shortfall in the words of the specification, whose three texts
  are written in lower case; kept apart from \<^const>\<open>analyze_bottleneck_reason\<close>, which is
  the engine's.
\<close>

definition spec_reason ::
  "EmployeeCapability list \<Rightarrow> (string \<times> string \<times> string) set \<Rightarrow> string \<Rightarrow> string \<Rightarrow> string
     \<Rightarrow> string" where
  "spec_reason es B d p sid =
     (if \<not> list_ex (\<lambda>e. capable e sid) es then ''no employees capable of this service''
      else if list_all (\<lambda>e. (employee_id e, d, p) \<in> B) (filter (\<lambda>e. capable e sid) es)
        then ''all capable employees are blocked/unavailable''
      else ''insufficient eligible employees for this slot'')"

definition ex_bottleneck_B :: Bottleneck where
  "ex_bottleneck_B =
     \<lparr>bn_date = ''2024-01-01'', bn_dagdeel = ''ochtend'', bn_service_id = ''S'',
      bn_required_count = 3, placed_count = 0, shortage = 3, severity = CRITICAL,
      reason = ''No employees capable of this service'',
      suggestions = [''Train 3 more employees in this service'', ''Reduce requirement by 3'',
                     ''Check for scheduling conflicts'']\<rparr>"

definition ex_result_B :: RosteringResult where
  "ex_result_B =
     \<lparr>roster = [], bottlenecks = [ex_bottleneck_B], coverage_rate = 0, total_slots = 1,
      assigned_slots = 0, solve_time_seconds = 1, timestamp = ''2024-01-01T00:00:01'',
      version = ''2.0.0-DRAAD194''\<rparr>"

text \<open>
  The largest required_count among the requirements that target a slot, and not less than
  \<open>c0\<close>.
\<close>

definition required_cap ::
  "RosteringRequirement list \<Rightarrow> string \<Rightarrow> string \<Rightarrow> string \<Rightarrow> int \<Rightarrow> int" where
  "required_cap reqs d p sid c0 =
     fold (\<lambda>req m. if req_date req = d \<and> req_dagdeel req = p \<and> req_service_id req = sid
                     then max m (req_required_count req) else m) reqs c0"

text \<open>A second pre-planned assignment for the sample slot, for the second worker.\<close>

definition ex_fixed2 :: FixedAssignment where
  "ex_fixed2 = ex_fixed\<lparr>fx_employee_id := ''e2''\<rparr>"

definition ex_roster_over :: "Assignment list" where
  "ex_roster_over =
     [\<lparr>assignment_id = ''e1_2024-01-01_ochtend'', a_employee_id = ''e1'',
       a_date = ''2024-01-01'', a_dagdeel = ''ochtend'', a_service_id = ''S'',
       source = ''pre-planned'', is_locked = True\<rparr>,
      \<lparr>assignment_id = ''e2_2024-01-01_ochtend'', a_employee_id = ''e2'',
       a_date = ''2024-01-01'', a_dagdeel = ''ochtend'', a_service_id = ''S'',
       source = ''pre-planned'', is_locked = True\<rparr>]"

definition ex_result_over :: RosteringResult where
  "ex_result_over =
     \<lparr>roster = ex_roster_over, bottlenecks = [], coverage_rate = 100, total_slots = 1,
      assigned_slots = 1, solve_time_seconds = 1, timestamp = ''2024-01-01T00:00:01'',
      version = ''2.0.0-DRAAD194''\<rparr>"

text \<open>The number of roster entries of a worker.\<close>

definition worker_count :: "Assignment list \<Rightarrow> string \<Rightarrow> int" where
  "worker_count ros k = int (length (filter (\<lambda>a. a_employee_id a = k) ros))"

text \<open>
  A worker record with the three fields \<^verbatim>\<open>available_dates\<close>, \<^verbatim>\<open>max_shifts_per_week\<close>
  and \<^verbatim>\<open>current_shifts\<close> replaced by arbitrary values.
\<close>

definition with_schedule ::
  "(EmployeeCapability \<Rightarrow> string set) \<Rightarrow> (EmployeeCapability \<Rightarrow> int)
     \<Rightarrow> (EmployeeCapability \<Rightarrow> int) \<Rightarrow> EmployeeCapability \<Rightarrow> EmployeeCapability" where
  "with_schedule A M C e =
     e\<lparr>available_dates := A e, max_shifts_per_week := M e, current_shifts := C e\<rparr>"

text \<open>An update of worker records that keeps what the engine reads of them.\<close>

definition keeps_view :: "(EmployeeCapability \<Rightarrow> EmployeeCapability) \<Rightarrow> bool" where
  "keeps_view u =
     (\<forall>e. employee_id (u e) = employee_id e \<and> team (u e) = team e
          \<and> capable_services (u e) = capable_services e)"

definition on_employees ::
  "(EmployeeCapability \<Rightarrow> EmployeeCapability) \<Rightarrow> planner_state \<Rightarrow> planner_state" where
  "on_employees u st = st\<lparr>s_employees := map u (s_employees st)\<rparr>"

text \<open>A worker whose availability and weekly cap would forbid the sample slot.\<close>

definition ex_busy :: EmployeeCapability where
  "ex_busy = ex_e1\<lparr>available_dates := {''2024-02-02''}, max_shifts_per_week := 0,
                   current_shifts := 7\<rparr>"

text \<open>The (worker, date, day-part) triple of an Assignment and of a FixedAssignment.\<close>

definition worker_slot :: "Assignment \<Rightarrow> string \<times> string \<times> string" where
  "worker_slot a = (a_employee_id a, a_date a, a_dagdeel a)"

definition fixed_slot :: "FixedAssignment \<Rightarrow> string \<times> string \<times> string" where
  "fixed_slot fx = (fx_employee_id fx, fx_date fx, fx_dagdeel fx)"

text \<open>
  A worker who can do two services, with a pre-planned assignment for each of them in the
  same day-part.
\<close>

definition ex_multi :: EmployeeCapability where
  "ex_multi = ex_e1\<lparr>capable_services := [''S'' \<mapsto> True, ''T'' \<mapsto> True]\<rparr>"

definition ex_fixed_T :: FixedAssignment where
  "ex_fixed_T = ex_fixed\<lparr>fx_service_id := ''T''\<rparr>"

definition ex_roster_double :: "Assignment list" where
  "ex_roster_double =
     [\<lparr>assignment_id = ''e1_2024-01-01_ochtend'', a_employee_id = ''e1'',
       a_date = ''2024-01-01'', a_dagdeel = ''ochtend'', a_service_id = ''S'',
       source = ''pre-planned'', is_locked = True\<rparr>,
      \<lparr>assignment_id = ''e1_2024-01-01_ochtend'', a_employee_id = ''e1'',
       a_date = ''2024-01-01'', a_dagdeel = ''ochtend'', a_service_id = ''T'',
       source = ''pre-planned'', is_locked = True\<rparr>]"

definition ex_result_double :: RosteringResult where
  "ex_result_double =
     \<lparr>roster = ex_roster_double, bottlenecks = [], coverage_rate = 0, total_slots = 0,
      assigned_slots = 0, solve_time_seconds = 1, timestamp = ''2024-01-01T00:00:01'',
      version = ''2.0.0-DRAAD194''\<rparr>"

text \<open>A requirement for as many workers as the smallest number too long to print.\<close>

definition ex_req_huge :: RosteringRequirement where
  "ex_req_huge = ex_req\<lparr>req_required_count := 10 ^ int_max_str_digits\<rparr>"

text \<open>
  A requirement is answered by a roster when its slot is filled or a Bottleneck names its
  slot and count.
\<close>

definition answered ::
  "RosteringRequirement \<Rightarrow> Assignment list \<Rightarrow> Bottleneck list \<Rightarrow> bool" where
  "answered req ros bns =
     (req_required_count req
        \<le> slot_count ros (req_date req) (req_dagdeel req) (req_service_id req)
      \<or> list_ex (\<lambda>b. bn_date b = req_date req \<and> bn_dagdeel b = req_dagdeel req
                        \<and> bn_service_id b = req_service_id req
                        \<and> bn_required_count b = req_required_count req) bns)"

section \<open>The engine agrees with the closed forms\<close>

lemmas engine_defs =
  solve_def solve_state_def build_result_def initial_state_def build_blocked_set_def
  is_valid_assignment_def capable_def incr_def process_requirement_def slot_count_def
  locked_assignment_def greedy_assignment_def get0_def new_Bottleneck_def
  Bottleneck_post_init_def analyze_bottleneck_reason_def suggest_solutions_def str_int_def
  int_max_str_digits_def py_truediv_def Let_def

lemmas ex_defs =
  ex_e1_def ex_e2_def ex_req_def ex_fixed_def ex_clock_def ex_clock2_def ex_roster_def
  ex_bottleneck_def ex_result_def

lemma solve_example: "solve [ex_req] [ex_e1, ex_e2] [ex_fixed] [] ex_clock = Inr ex_result"
  by (simp add: engine_defs ex_defs str_nat.simps)

lemma incr_present: "k \<in> dom d \<Longrightarrow> incr k d = Inr (bump k d)"
  by (auto simp: incr_def bump_def get0_def)

lemma dom_bump: "dom (bump k d) = insert k (dom d)"
  by (simp add: bump_def)

lemma dom_fold_bump: "dom (fold bump ks d) = set ks \<union> dom d"
  by (induction ks arbitrary: d) (auto simp: dom_bump)

lemma is_valid_assignment_member:
  "is_valid_assignment eid d p sid es B \<Longrightarrow> eid \<in> employee_id ` set es"
  by (auto simp: is_valid_assignment_def find_Some_iff split: if_splits option.splits)

lemma lock_preplanned_spec:
  "keys_ok st \<Longrightarrow> lock_preplanned B fxs st = Inr (lock_pure B fxs st)"
proof (induction fxs arbitrary: st)
  case Nil
  then show ?case by (simp add: valid_fixed_def lock_pure_def)
next
  case (Cons fx fxs)
  show ?case
  proof (cases "is_valid_assignment (fx_employee_id fx) (fx_date fx) (fx_dagdeel fx)
                  (fx_service_id fx) (s_employees st) B")
    case True
    then have "fx_employee_id fx \<in> employee_id ` set (s_employees st)"
      by (rule is_valid_assignment_member)
    with Cons.prems have k: "fx_employee_id fx \<in> dom (s_assignment_count st)"
      by (auto simp: keys_ok_def)
    let ?st1 = "st\<lparr>s_roster := s_roster st @ [locked_assignment fx],
                    s_assignment_count := bump (fx_employee_id fx) (s_assignment_count st)\<rparr>"
    have "keys_ok ?st1" using Cons.prems by (auto simp: keys_ok_def dom_bump)
    from Cons.IH [OF this] True k show ?thesis
      by (simp add: incr_present valid_fixed_def lock_pure_def)
  next
    case False
    with Cons.IH [OF Cons.prems] show ?thesis by (simp add: valid_fixed_def lock_pure_def)
  qed
qed

lemma assign_loop_spec:
  "\<forall>e \<in> set emps. employee_id e \<in> dom (s_assignment_count st) \<Longrightarrow>
   assign_loop req short emps st k =
     Inr (st\<lparr>s_roster := s_roster st
                 @ map (\<lambda>e. greedy_assignment e req) (take (nat (short - k)) emps),
             s_assignment_count :=
               fold bump (map employee_id (take (nat (short - k)) emps))
                 (s_assignment_count st)\<rparr>,
          k + int (length (take (nat (short - k)) emps)))"
proof (induction emps arbitrary: st k)
  case Nil
  then show ?case by simp
next
  case (Cons emp emps)
  show ?case
  proof (cases "k \<ge> short")
    case True
    then show ?thesis by simp
  next
    case False
    then have n: "nat (short - k) = Suc (nat (short - (k + 1)))" by simp
    let ?st1 = "st\<lparr>s_roster := s_roster st @ [greedy_assignment emp req],
                    s_assignment_count := bump (employee_id emp) (s_assignment_count st)\<rparr>"
    have "\<forall>e \<in> set emps. employee_id e \<in> dom (s_assignment_count ?st1)"
      using Cons.prems by (auto simp: dom_bump)
    from Cons.IH [OF this, of "k + 1"] Cons.prems False show ?thesis
      by (simp add: incr_present n)
  qed
qed

lemma find_eligible_subset:
  "set (find_eligible_employees d p sid es ros B t) \<subseteq> set es"
  by (induction es) auto

lemma candidates_subset: "set (candidates B req st) \<subseteq> set (s_employees st)"
  using find_eligible_subset by (simp add: candidates_def)

lemma chosen_subset: "set (chosen B req st) \<subseteq> set (s_employees st)"
  using candidates_subset [of B req st] set_take_subset [of _ "candidates B req st"]
  unfolding chosen_def by blast

lemma shortage_new_Bottleneck: "shortage (new_Bottleneck d p s rc pc) = rc - pc"
  by (simp add: new_Bottleneck_def Bottleneck_post_init_def Let_def)

lemma fields_new_Bottleneck:
  "bn_date (new_Bottleneck d p s rc pc) = d"
  "bn_dagdeel (new_Bottleneck d p s rc pc) = p"
  "bn_service_id (new_Bottleneck d p s rc pc) = s"
  "bn_required_count (new_Bottleneck d p s rc pc) = rc"
  "placed_count (new_Bottleneck d p s rc pc) = pc"
  by (simp_all add: new_Bottleneck_def Bottleneck_post_init_def Let_def)

lemma str_nat_length_le: "0 < k \<Longrightarrow> n < 10 ^ k \<Longrightarrow> length (str_nat n) \<le> k"
proof (induction k arbitrary: n)
  case 0
  then show ?case by simp
next
  case (Suc k)
  show ?case
  proof (cases "n < 10")
    case True
    then show ?thesis by (simp add: str_nat.simps [of n])
  next
    case False
    with Suc.prems have "0 < k" by (cases k) auto
    moreover from Suc.prems have "n div 10 < 10 ^ k"
      by (simp add: less_mult_imp_div_less mult.commute)
    ultimately have "length (str_nat (n div 10)) \<le> k" by (rule Suc.IH)
    with False show ?thesis by (simp add: str_nat.simps [of n])
  qed
qed

lemma str_nat_length_power: "length (str_nat (10 ^ k)) = Suc k"
proof (induction k)
  case 0
  then show ?case by (simp add: str_nat.simps [of "Suc 0"])
next
  case (Suc k)
  have "\<not> (10::nat) ^ Suc k < 10" by simp
  then show ?case using Suc by (simp add: str_nat.simps [of "10 ^ Suc k"] del: power_Suc) simp
qed

lemma int_max_str_digits_pos: "0 < int_max_str_digits"
  by (simp add: int_max_str_digits_def)

lemma not_too_long:
  assumes "0 < i" and "i < 10 ^ int_max_str_digits"
  shows "\<not> too_long i"
proof -
  from assms have "nat \<bar>i\<bar> < 10 ^ int_max_str_digits"
    by (simp add: nat_less_iff)
  with int_max_str_digits_pos have "length (str_nat (nat \<bar>i\<bar>)) \<le> int_max_str_digits"
    by (rule str_nat_length_le)
  then show ?thesis by (simp add: too_long_def)
qed

lemma too_long_power: "too_long (10 ^ int_max_str_digits)"
proof -
  have e: "nat \<bar>(10::int) ^ int_max_str_digits\<bar> = 10 ^ int_max_str_digits"
    by (simp add: nat_power_eq)
  show ?thesis unfolding too_long_def e str_nat_length_power by simp
qed

lemma small_below_limit: "i < 10 \<Longrightarrow> (i::int) < 10 ^ int_max_str_digits"
proof -
  assume "i < 10"
  moreover have "(10::int) ^ 1 \<le> 10 ^ int_max_str_digits"
    using int_max_str_digits_pos by (intro power_increasing) simp_all
  ultimately show ?thesis by simp
qed

lemma not_too_long_1: "\<not> too_long 1"
  by (simp add: too_long_def int_max_str_digits_def str_nat.simps [of "Suc 0"])

lemma str_int_cases: "str_int i = (if too_long i then Inl ValueError else Inr (decimal i))"
  by (simp add: str_int_def too_long_def decimal_def)

lemma suggest_solutions_cases:
  "suggest_solutions req b =
     (if too_long (shortage b) then Inl ValueError else Inr (suggest_pure req b))"
  using not_too_long_1
  by (auto simp: suggest_solutions_def suggest_pure_def str_int_cases)

lemma process_requirement_pure:
  assumes "keys_ok st"
  shows "process_requirement B req st =
           (if overflows B req st then Inl ValueError else Inr (process_pure B req st))"
proof (cases "cur_count req st < req_required_count req")
  case False
  then have "chosen B req st = []" by (simp add: chosen_def cur_count_def)
  with False show ?thesis
    by (simp add: process_requirement_def process_pure_def shortfall_def overflows_def
          cur_count_def)
next
  case True
  let ?short = "req_required_count req - cur_count req st"
  have keys: "\<forall>e \<in> set (candidates B req st). employee_id e \<in> dom (s_assignment_count st)"
    using assms candidates_subset [of B req st] by (auto simp: keys_ok_def)
  have loop: "assign_loop req ?short (candidates B req st) st 0 =
     Inr (st\<lparr>s_roster := s_roster st @ map (\<lambda>e. greedy_assignment e req) (chosen B req st),
             s_assignment_count :=
               fold bump (map employee_id (chosen B req st)) (s_assignment_count st)\<rparr>,
          int (length (chosen B req st)))"
    using assign_loop_spec [OF keys, of req ?short 0]
    by (simp add: chosen_def cur_count_def)
  have lt: "int (length (chosen B req st)) < ?short \<longleftrightarrow> shortfall B req st"
    using True by (auto simp: chosen_def shortfall_def cur_count_def min_def)
  show ?thesis
    using True loop lt
    unfolding process_requirement_def process_pure_def bottleneck_for_def overflows_def
    by (simp add: Let_def candidates_def [symmetric] cur_count_def [symmetric]
          suggest_solutions_cases shortage_new_Bottleneck)
qed

lemma keys_ok_process_pure: "keys_ok st \<Longrightarrow> keys_ok (process_pure B req st)"
  by (auto simp: keys_ok_def process_pure_def Let_def dom_fold_bump)

lemma keys_ok_lock_pure: "keys_ok st \<Longrightarrow> keys_ok (lock_pure B fxs st)"
  by (auto simp: keys_ok_def lock_pure_def dom_fold_bump)

lemma keys_ok_initial: "keys_ok (initial_state es)"
  by (auto simp: keys_ok_def initial_state_def dom_map_of_conv_image_fst image_image)

lemma greedy_allocate_pure:
  "keys_ok st \<Longrightarrow>
   greedy_allocate B reqs st =
     (if any_overflow B reqs st then Inl ValueError else Inr (fold (process_pure B) reqs st))"
  by (induction reqs arbitrary: st) (simp_all add: process_requirement_pure keys_ok_process_pure)

lemma solve_state_pure:
  "solve_state reqs es fxs bls =
     (if any_overflow (build_blocked_set bls) reqs
           (lock_pure (build_blocked_set bls) fxs (initial_state es))
      then Inl ValueError else Inr (final_state reqs es fxs bls))"
  unfolding solve_state_def final_state_def Let_def
  by (simp add: lock_preplanned_spec greedy_allocate_pure keys_ok_lock_pure keys_ok_initial)

lemma solve_state_Inr:
  "solve_state reqs es fxs bls = Inr st \<Longrightarrow> st = final_state reqs es fxs bls"
  by (simp add: solve_state_pure split: if_splits)

lemma build_result_pure:
  "build_result clk reqs st =
     Inr \<lparr>roster = s_roster st, bottlenecks = s_bottlenecks st,
          coverage_rate =
            coverage_of (int (length (filter (\<lambda>b. shortage b = 0) (s_bottlenecks st)))
                           + (int (length reqs) - int (length (s_bottlenecks st))))
              (int (length reqs)),
          total_slots = int (length reqs),
          assigned_slots = int (length (filter (\<lambda>b. shortage b = 0) (s_bottlenecks st)))
                             + (int (length reqs) - int (length (s_bottlenecks st))),
          solve_time_seconds = now_end clk - now_start clk,
          timestamp = now_stamp clk, version = ''2.0.0-DRAAD194''\<rparr>"
  by (simp add: build_result_def py_truediv_def coverage_of_def Let_def)

lemma solve_pure:
  "solve reqs es fxs bls clk =
     (if any_overflow (build_blocked_set bls) reqs
           (lock_pure (build_blocked_set bls) fxs (initial_state es))
      then Inl ValueError else build_result clk reqs (final_state reqs es fxs bls))"
  by (simp add: solve_def solve_state_pure)

lemma solve_Inr:
  "solve reqs es fxs bls clk = Inr r \<Longrightarrow>
   build_result clk reqs (final_state reqs es fxs bls) = Inr r"
  by (simp add: solve_pure split: if_splits)

lemma s_employees_lock_pure: "s_employees (lock_pure B fxs st) = s_employees st"
  by (simp add: lock_pure_def)

lemma s_employees_process_pure: "s_employees (process_pure B req st) = s_employees st"
  by (simp add: process_pure_def Let_def)

lemma s_employees_fold_process:
  "s_employees (fold (process_pure B) reqs st) = s_employees st"
  by (induction reqs arbitrary: st) (simp_all add: s_employees_process_pure)

lemma s_employees_final: "s_employees (final_state reqs es fxs bls) = es"
  by (simp add: final_state_def s_employees_fold_process s_employees_lock_pure initial_state_def)

lemma s_bottlenecks_lock_pure: "s_bottlenecks (lock_pure B fxs st) = s_bottlenecks st"
  by (simp add: lock_pure_def)

lemma s_bottlenecks_process_pure:
  "s_bottlenecks (process_pure B req st) =
     s_bottlenecks st @ (if shortfall B req st then [bottleneck_for B req st] else [])"
  by (simp add: process_pure_def Let_def)

lemma bottlenecks_fold_process:
  assumes "b \<in> set (s_bottlenecks (fold (process_pure B) reqs st))"
    and "b \<notin> set (s_bottlenecks st)"
  shows "\<exists>req st'. req \<in> set reqs \<and> s_employees st' = s_employees st
           \<and> shortfall B req st' \<and> b = bottleneck_for B req st'"
  using assms
proof (induction reqs arbitrary: st)
  case Nil
  then show ?case by simp
next
  case (Cons req reqs)
  show ?case
  proof (cases "b \<in> set (s_bottlenecks (process_pure B req st))")
    case True
    with Cons.prems(2) have "shortfall B req st \<and> b = bottleneck_for B req st"
      by (auto simp: s_bottlenecks_process_pure split: if_splits)
    then show ?thesis by auto
  next
    case False
    from Cons.IH [OF _ False] Cons.prems(1)
    obtain r st' where "r \<in> set reqs" "s_employees st' = s_employees (process_pure B req st)"
      "shortfall B r st'" "b = bottleneck_for B r st'"
      by auto
    then show ?thesis by (auto simp: s_employees_process_pure)
  qed
qed

lemma bottlenecks_final:
  assumes "b \<in> set (s_bottlenecks (final_state reqs es fxs bls))"
  shows "\<exists>req st. req \<in> set reqs \<and> s_employees st = es
           \<and> shortfall (build_blocked_set bls) req st
           \<and> b = bottleneck_for (build_blocked_set bls) req st"
proof -
  let ?B = "build_blocked_set bls"
  let ?st1 = "lock_pure ?B fxs (initial_state es)"
  have "b \<notin> set (s_bottlenecks ?st1)"
    by (simp add: s_bottlenecks_lock_pure initial_state_def)
  from bottlenecks_fold_process [OF _ this] assms
  show ?thesis
    by (simp add: final_state_def s_employees_lock_pure initial_state_def)
qed

lemma bottleneck_for_fields:
  "bn_date (bottleneck_for B req st) = req_date req"
  "bn_dagdeel (bottleneck_for B req st) = req_dagdeel req"
  "bn_service_id (bottleneck_for B req st) = req_service_id req"
  "bn_required_count (bottleneck_for B req st) = req_required_count req"
  "placed_count (bottleneck_for B req st) = cur_count req st + int (length (chosen B req st))"
  "shortage (bottleneck_for B req st) =
     req_required_count req - (cur_count req st + int (length (chosen B req st)))"
  "reason (bottleneck_for B req st) =
     analyze_bottleneck_reason req (candidates B req st) B (s_employees st)"
  by (simp_all add: bottleneck_for_def Let_def fields_new_Bottleneck shortage_new_Bottleneck)

lemma chosen_length_shortfall:
  "shortfall B req st \<Longrightarrow> length (chosen B req st) = length (candidates B req st)"
  by (auto simp: shortfall_def chosen_def cur_count_def)

lemma bottleneck_for_shortage_pos:
  "shortfall B req st \<Longrightarrow> 0 < shortage (bottleneck_for B req st)"
  using chosen_length_shortfall [of B req st]
  by (simp add: bottleneck_for_fields) (simp add: shortfall_def)

lemma final_bottleneck_shortage:
  assumes "b \<in> set (s_bottlenecks (final_state reqs es fxs bls))"
  shows "0 < shortage b \<and> shortage b = bn_required_count b - placed_count b"
proof -
  from bottlenecks_final [OF assms] obtain req st
    where "shortfall (build_blocked_set bls) req st"
      and "b = bottleneck_for (build_blocked_set bls) req st"
    by blast
  then show ?thesis
    by (simp add: bottleneck_for_shortage_pos) (simp add: bottleneck_for_fields)
qed

lemma solve_result:
  "solve reqs es fxs bls clk = Inr r \<Longrightarrow>
     roster r = s_roster (final_state reqs es fxs bls) \<and>
     bottlenecks r = s_bottlenecks (final_state reqs es fxs bls)"
  by (auto simp: build_result_pure dest!: solve_Inr)

lemma solve_example2:
  "solve [ex_req_met, ex_req] [ex_e1, ex_e2] [ex_fixed] [] ex_clock = Inr ex_result2"
  by (simp add: engine_defs ex_defs ex_req_met_def ex_result2_def str_nat.simps)

lemma analyze_bottleneck_reason_cases:
  "analyze_bottleneck_reason req el B es =
     (if \<not> (\<exists>e \<in> set es. capable e (req_service_id req))
        then ''No employees capable of this service''
      else if \<forall>e \<in> set es. capable e (req_service_id req) \<longrightarrow>
                (employee_id e, req_date req, req_dagdeel req) \<in> B
        then ''All capable employees are blocked/unavailable''
      else ''Insufficient eligible employees for this slot'')"
  by (auto simp: analyze_bottleneck_reason_def Let_def filter_empty_conv)

lemma solve_example_B: "solve [ex_req] [] [] [] ex_clock = Inr ex_result_B"
  by (simp add: engine_defs ex_defs ex_result_B_def ex_bottleneck_B_def str_nat.simps)

lemma s_roster_process_pure:
  "s_roster (process_pure B req st) =
     s_roster st @ map (\<lambda>e. greedy_assignment e req) (chosen B req st)"
  by (simp add: process_pure_def Let_def)

lemma roster_fold_process:
  "\<exists>G. s_roster (fold (process_pure B) reqs st) = s_roster st @ G
       \<and> (\<forall>a \<in> set G. \<not> is_locked a \<and> source a = ''greedy'')"
proof (induction reqs arbitrary: st)
  case Nil
  then show ?case by simp
next
  case (Cons req reqs)
  from Cons.IH [of "process_pure B req st"] obtain G
    where "s_roster (fold (process_pure B) reqs (process_pure B req st))
             = s_roster (process_pure B req st) @ G"
      and "\<forall>a \<in> set G. \<not> is_locked a \<and> source a = ''greedy''"
    by blast
  then have "s_roster (fold (process_pure B) (req # reqs) st)
               = s_roster st @ (map (\<lambda>e. greedy_assignment e req) (chosen B req st) @ G)
             \<and> (\<forall>a \<in> set (map (\<lambda>e. greedy_assignment e req) (chosen B req st) @ G).
                   \<not> is_locked a \<and> source a = ''greedy'')"
    by (auto simp: s_roster_process_pure greedy_assignment_def)
  then show ?case by blast
qed

lemma slot_count_append:
  "slot_count (xs @ ys) d p sid = slot_count xs d p sid + slot_count ys d p sid"
  by (simp add: slot_count_def)

lemma slot_count_greedy:
  "slot_count (map (\<lambda>e. greedy_assignment e req) es) d p sid =
     (if req_date req = d \<and> req_dagdeel req = p \<and> req_service_id req = sid
      then int (length es) else 0)"
  by (simp add: slot_count_def greedy_assignment_def)

lemma slot_count_process_pure:
  "slot_count (s_roster (process_pure B req st)) d p sid
     \<le> (if req_date req = d \<and> req_dagdeel req = p \<and> req_service_id req = sid
         then max (slot_count (s_roster st) d p sid) (req_required_count req)
         else slot_count (s_roster st) d p sid)"
  by (auto simp: s_roster_process_pure slot_count_append slot_count_greedy chosen_def)

lemma required_cap_mono:
  "c \<le> c' \<Longrightarrow> required_cap reqs d p sid c \<le> required_cap reqs d p sid c'"
  unfolding required_cap_def
  by (induction reqs arbitrary: c c') auto

lemma required_cap_Cons:
  "required_cap (req # reqs) d p sid c =
     required_cap reqs d p sid
       (if req_date req = d \<and> req_dagdeel req = p \<and> req_service_id req = sid
        then max c (req_required_count req) else c)"
  by (simp add: required_cap_def)

lemma slot_count_fold_process:
  "slot_count (s_roster (fold (process_pure B) reqs st)) d p sid
     \<le> required_cap reqs d p sid (slot_count (s_roster st) d p sid)"
proof (induction reqs arbitrary: st)
  case Nil
  then show ?case by (simp add: required_cap_def)
next
  case (Cons req reqs)
  have "slot_count (s_roster (fold (process_pure B) (req # reqs) st)) d p sid
          \<le> required_cap reqs d p sid (slot_count (s_roster (process_pure B req st)) d p sid)"
    using Cons.IH [of "process_pure B req st"] by simp
  also have "\<dots> \<le> required_cap (req # reqs) d p sid (slot_count (s_roster st) d p sid)"
    unfolding required_cap_Cons
    by (rule required_cap_mono) (rule slot_count_process_pure)
  finally show ?case .
qed

lemma required_cap_le:
  assumes "c \<le> m"
    and "\<forall>q \<in> set reqs. req_date q = d \<and> req_dagdeel q = p \<and> req_service_id q = sid
            \<longrightarrow> req_required_count q \<le> m"
  shows "required_cap reqs d p sid c \<le> m"
  using assms unfolding required_cap_def
  by (induction reqs arbitrary: c) auto

lemma roster_final_split:
  "\<exists>G. s_roster (final_state reqs es fxs bls)
          = s_roster (lock_pure (build_blocked_set bls) fxs (initial_state es)) @ G
       \<and> (\<forall>a \<in> set G. \<not> is_locked a \<and> source a = ''greedy'')"
  unfolding final_state_def by (rule roster_fold_process)

lemma roster_lock_pure_initial:
  "\<forall>a \<in> set (s_roster (lock_pure B fxs (initial_state es))).
     is_locked a \<and> source a = ''pre-planned''"
  by (auto simp: lock_pure_def initial_state_def locked_assignment_def)

lemma locked_part_final:
  "filter is_locked (s_roster (final_state reqs es fxs bls))
     = s_roster (lock_pure (build_blocked_set bls) fxs (initial_state es))"
proof -
  from roster_final_split [of reqs es fxs bls] obtain G
    where 1: "s_roster (final_state reqs es fxs bls)
          = s_roster (lock_pure (build_blocked_set bls) fxs (initial_state es)) @ G"
      and 2: "\<forall>a \<in> set G. \<not> is_locked a \<and> source a = ''greedy''"
    by blast
  from 2 have "filter is_locked G = []" by (simp add: filter_empty_conv)
  moreover have "filter is_locked (s_roster (lock_pure (build_blocked_set bls) fxs (initial_state es)))
     = s_roster (lock_pure (build_blocked_set bls) fxs (initial_state es))"
    using roster_lock_pure_initial by (simp add: filter_id_conv)
  ultimately show ?thesis unfolding 1 by simp
qed

lemma solve_example_over:
  "solve [ex_req_met] [ex_e1, ex_e2] [ex_fixed, ex_fixed2] [] ex_clock = Inr ex_result_over"
  by (simp add: engine_defs ex_defs ex_req_met_def ex_fixed2_def ex_result_over_def
      ex_roster_over_def str_nat.simps)

lemma get0_bump: "get0 (bump k d) k' = (if k' = k then get0 d k + 1 else get0 d k')"
  by (simp add: bump_def get0_def)

lemma get0_fold_bump:
  "get0 (fold bump ks d) k = get0 d k + int (length (filter (\<lambda>x. x = k) ks))"
  by (induction ks arbitrary: d) (auto simp: get0_bump)

lemma worker_count_append:
  "worker_count (xs @ ys) k = worker_count xs k + worker_count ys k"
  by (simp add: worker_count_def)

lemma worker_count_locked:
  "worker_count (map locked_assignment fxs) k
     = int (length (filter (\<lambda>x. x = k) (map fx_employee_id fxs)))"
  by (simp add: worker_count_def locked_assignment_def filter_map comp_def)

lemma worker_count_greedy:
  "worker_count (map (\<lambda>e. greedy_assignment e req) es) k
     = int (length (filter (\<lambda>x. x = k) (map employee_id es)))"
  by (simp add: worker_count_def greedy_assignment_def filter_map comp_def)

lemma count_inv_lock_pure:
  assumes "\<forall>k. get0 (s_assignment_count st) k = worker_count (s_roster st) k"
  shows "get0 (s_assignment_count (lock_pure B fxs st)) k
           = worker_count (s_roster (lock_pure B fxs st)) k"
  using assms
  by (simp add: lock_pure_def get0_fold_bump worker_count_append worker_count_locked)

lemma count_inv_process_pure:
  assumes "\<forall>k. get0 (s_assignment_count st) k = worker_count (s_roster st) k"
  shows "get0 (s_assignment_count (process_pure B req st)) k
           = worker_count (s_roster (process_pure B req st)) k"
  using assms
  by (simp add: process_pure_def Let_def get0_fold_bump worker_count_append worker_count_greedy)

lemma count_inv_fold_process:
  "\<forall>k. get0 (s_assignment_count st) k = worker_count (s_roster st) k \<Longrightarrow>
   get0 (s_assignment_count (fold (process_pure B) reqs st)) k
     = worker_count (s_roster (fold (process_pure B) reqs st)) k"
proof (induction reqs arbitrary: st)
  case Nil
  then show ?case by simp
next
  case (Cons req reqs)
  have "\<forall>k. get0 (s_assignment_count (process_pure B req st)) k
           = worker_count (s_roster (process_pure B req st)) k"
    using count_inv_process_pure [OF Cons.prems] by blast
  from Cons.IH [OF this] show ?case by simp
qed

lemma get0_initial: "get0 (s_assignment_count (initial_state es)) k = 0"
  by (induction es) (auto simp: initial_state_def get0_def)

lemma count_inv_final:
  "get0 (s_assignment_count (final_state reqs es fxs bls)) k
     = worker_count (s_roster (final_state reqs es fxs bls)) k"
proof -
  have "\<forall>k. get0 (s_assignment_count (initial_state es)) k
            = worker_count (s_roster (initial_state es)) k"
    by (simp add: get0_initial) (simp add: initial_state_def worker_count_def)
  then have "\<forall>k. get0 (s_assignment_count (lock_pure (build_blocked_set bls) fxs (initial_state es))) k
            = worker_count (s_roster (lock_pure (build_blocked_set bls) fxs (initial_state es))) k"
    using count_inv_lock_pure by blast
  then show ?thesis
    unfolding final_state_def by (rule count_inv_fold_process)
qed

lemma keys_ok_fold_process: "keys_ok st \<Longrightarrow> keys_ok (fold (process_pure B) reqs st)"
  by (induction reqs arbitrary: st) (simp_all add: keys_ok_process_pure)

lemma keys_ok_final: "keys_ok (final_state reqs es fxs bls)"
  unfolding final_state_def
  by (intro keys_ok_fold_process keys_ok_lock_pure keys_ok_initial)

lemma solve_state_example:
  "map_sum id s_roster (solve_state [ex_req] [ex_e1, ex_e2] [ex_fixed] []) = Inr ex_roster
   \<and> map_sum id s_employees (solve_state [ex_req] [ex_e1, ex_e2] [ex_fixed] [])
        = Inr [ex_e1, ex_e2]
   \<and> map_sum id (\<lambda>st. s_assignment_count st ''e1'')
        (solve_state [ex_req] [ex_e1, ex_e2] [ex_fixed] []) = Inr (Some 1)"
  by (simp add: engine_defs ex_defs str_nat.simps)

lemma keeps_view_with_schedule: "keeps_view (with_schedule A M C)"
  by (simp add: keeps_view_def with_schedule_def)

lemma keeps_view_simps:
  assumes "keeps_view u"
  shows "employee_id (u e) = employee_id e" "team (u e) = team e" "capable (u e) sid = capable e sid"
  using assms by (simp_all add: keeps_view_def capable_def)

lemma find_map_keeps_view:
  assumes "keeps_view u"
  shows "find (\<lambda>e. employee_id e = eid) (map u es)
           = map_option u (find (\<lambda>e. employee_id e = eid) es)"
  by (induction es) (simp_all add: keeps_view_simps [OF assms])

lemma is_valid_assignment_keeps_view:
  assumes "keeps_view u"
  shows "is_valid_assignment eid d p sid (map u es) B = is_valid_assignment eid d p sid es B"
  by (simp add: is_valid_assignment_def find_map_keeps_view [OF assms]
        keeps_view_simps [OF assms] split: option.splits)

lemma find_eligible_keeps_view:
  assumes "keeps_view u"
  shows "find_eligible_employees d p sid (map u es) ros B t
           = map u (find_eligible_employees d p sid es ros B t)"
  by (induction es) (auto simp: keeps_view_simps [OF assms])

lemma insort_key_map:
  assumes "\<And>x. f (u x) = f x"
  shows "insort_key f (u x) (map u ys) = map u (insort_key f x ys)"
  by (induction ys) (simp_all add: assms)

lemma sort_key_map_invariant:
  assumes "\<And>x. f (u x) = f x"
  shows "sort_key f (map u xs) = map u (sort_key f xs)"
  by (induction xs) (simp_all add: insort_key_map [of f u, OF assms])

lemma analyze_keeps_view:
  assumes "keeps_view u"
  shows "analyze_bottleneck_reason req el B (map u es) = analyze_bottleneck_reason req el' B es"
  unfolding analyze_bottleneck_reason_cases
  by (simp add: keeps_view_simps [OF assms])

lemma valid_fixed_keeps_view:
  "keeps_view u \<Longrightarrow> valid_fixed B (map u es) fxs = valid_fixed B es fxs"
  by (simp add: valid_fixed_def is_valid_assignment_keeps_view)

lemma lock_pure_keeps_view:
  "keeps_view u \<Longrightarrow> lock_pure B fxs (on_employees u st) = on_employees u (lock_pure B fxs st)"
  by (simp add: lock_pure_def on_employees_def valid_fixed_keeps_view)

lemma candidates_keeps_view:
  assumes "keeps_view u"
  shows "candidates B req (on_employees u st) = map u (candidates B req st)"
  unfolding candidates_def on_employees_def
  by (simp add: find_eligible_keeps_view [OF assms]
        sort_key_map_invariant [of "\<lambda>e. get0 (s_assignment_count st) (employee_id e)" u]
        keeps_view_simps [OF assms])

lemma chosen_keeps_view:
  assumes "keeps_view u"
  shows "chosen B req (on_employees u st) = map u (chosen B req st)"
  unfolding chosen_def candidates_keeps_view [OF assms]
  by (simp add: on_employees_def take_map)

lemma cur_count_on_employees: "cur_count req (on_employees u st) = cur_count req st"
  by (simp add: cur_count_def on_employees_def)

lemma shortfall_keeps_view:
  "keeps_view u \<Longrightarrow> shortfall B req (on_employees u st) = shortfall B req st"
  by (simp add: shortfall_def candidates_keeps_view cur_count_on_employees)

lemma bottleneck_for_keeps_view:
  assumes "keeps_view u"
  shows "bottleneck_for B req (on_employees u st) = bottleneck_for B req st"
proof -
  have "analyze_bottleneck_reason req (candidates B req (on_employees u st)) B
          (s_employees (on_employees u st))
        = analyze_bottleneck_reason req (candidates B req st) B (s_employees st)"
    by (simp add: on_employees_def analyze_keeps_view [OF assms])
  then show ?thesis
    by (simp add: bottleneck_for_def chosen_keeps_view [OF assms] cur_count_on_employees)
qed

lemma process_pure_keeps_view:
  assumes "keeps_view u"
  shows "process_pure B req (on_employees u st) = on_employees u (process_pure B req st)"
proof -
  have ids: "map employee_id (map u xs) = map employee_id xs" for xs
    by (simp add: keeps_view_simps [OF assms])
  have gs: "map (\<lambda>e. greedy_assignment e req) (map u xs) = map (\<lambda>e. greedy_assignment e req) xs"
    for xs
    by (simp add: greedy_assignment_def keeps_view_simps [OF assms])
  show ?thesis
    unfolding process_pure_def Let_def chosen_keeps_view [OF assms]
      shortfall_keeps_view [OF assms] bottleneck_for_keeps_view [OF assms] ids gs
    by (simp add: on_employees_def)
qed

lemma overflows_keeps_view:
  "keeps_view u \<Longrightarrow> overflows B req (on_employees u st) = overflows B req st"
  by (simp add: overflows_def shortfall_keeps_view chosen_keeps_view cur_count_on_employees)

lemma any_overflow_keeps_view:
  "keeps_view u \<Longrightarrow> any_overflow B reqs (on_employees u st) = any_overflow B reqs st"
  by (induction reqs arbitrary: st) (simp_all add: overflows_keeps_view process_pure_keeps_view)

lemma fold_process_keeps_view:
  "keeps_view u \<Longrightarrow>
   fold (process_pure B) reqs (on_employees u st) = on_employees u (fold (process_pure B) reqs st)"
  by (induction reqs arbitrary: st) (simp_all add: process_pure_keeps_view)

lemma initial_state_keeps_view:
  "keeps_view u \<Longrightarrow> initial_state (map u es) = on_employees u (initial_state es)"
  by (simp add: initial_state_def on_employees_def keeps_view_def comp_def)

lemma final_state_keeps_view:
  "keeps_view u \<Longrightarrow> final_state reqs (map u es) fxs bls = on_employees u (final_state reqs es fxs bls)"
  by (simp add: final_state_def initial_state_keeps_view lock_pure_keeps_view fold_process_keeps_view)

lemma build_result_on_employees:
  "build_result clk reqs (on_employees u st) = build_result clk reqs st"
  by (simp add: build_result_pure on_employees_def)

lemma solve_keeps_view:
  "keeps_view u \<Longrightarrow> solve reqs (map u es) fxs bls clk = solve reqs es fxs bls clk"
  by (simp add: solve_pure final_state_keeps_view build_result_on_employees
        initial_state_keeps_view lock_pure_keeps_view any_overflow_keeps_view)

lemma solve_example_double:
  "solve [] [ex_multi] [ex_fixed, ex_fixed_T] [] ex_clock = Inr ex_result_double"
  by (simp add: engine_defs ex_defs ex_multi_def ex_fixed_T_def ex_roster_double_def
        ex_result_double_def)

lemma find_eligible_filter:
  "find_eligible_employees d p sid es ros B t =
     filter (\<lambda>emp. \<not> (t \<noteq> [] \<and> team emp \<noteq> t) \<and> capable emp sid
                    \<and> (employee_id emp, d, p) \<notin> B
                    \<and> \<not> list_ex (\<lambda>a. a_employee_id a = employee_id emp \<and> a_date a = d
                                       \<and> a_dagdeel a = p) ros) es"
  by (induction es) auto

lemma distinct_map_insort_key:
  "distinct (map g (insort_key f x xs)) \<longleftrightarrow> g x \<notin> g ` set xs \<and> distinct (map g xs)"
  by (induction xs) (auto simp: set_insort_key)

lemma distinct_map_sort_key:
  "distinct (map g (sort_key f xs)) \<longleftrightarrow> distinct (map g xs)"
  by (induction xs) (simp_all add: distinct_map_insort_key)

lemma candidates_distinct:
  "distinct (map employee_id (s_employees st)) \<Longrightarrow>
   distinct (map employee_id (candidates B req st))"
  by (simp add: candidates_def distinct_map_sort_key find_eligible_filter distinct_map_filter)

lemma chosen_distinct:
  assumes "distinct (map employee_id (s_employees st))"
  shows "distinct (map employee_id (chosen B req st))"
  using candidates_distinct [OF assms, of B req]
  by (simp add: chosen_def take_map [symmetric] del: take_map)

lemma chosen_free:
  assumes "e \<in> set (chosen B req st)"
  shows "(employee_id e, req_date req, req_dagdeel req) \<notin> worker_slot ` set (s_roster st)"
proof -
  from assms have "e \<in> set (candidates B req st)"
    unfolding chosen_def by (rule in_set_takeD)
  then have "\<not> list_ex (\<lambda>a. a_employee_id a = employee_id e \<and> a_date a = req_date req
                             \<and> a_dagdeel a = req_dagdeel req) (s_roster st)"
    by (simp add: candidates_def find_eligible_filter)
  then show ?thesis
    by (auto simp: list_ex_iff worker_slot_def)
qed

lemma worker_slot_greedy:
  "map worker_slot (map (\<lambda>e. greedy_assignment e req) es)
     = map (\<lambda>k. (k, req_date req, req_dagdeel req)) (map employee_id es)"
  by (simp add: worker_slot_def greedy_assignment_def)

lemma distinct_process_pure:
  assumes "distinct (map employee_id (s_employees st))"
    and "distinct (map worker_slot (s_roster st))"
  shows "distinct (map worker_slot (s_roster (process_pure B req st)))"
proof -
  have new: "distinct (map worker_slot (map (\<lambda>e. greedy_assignment e req) (chosen B req st)))"
    unfolding worker_slot_greedy
    using chosen_distinct [OF assms(1), of B req]
    by (simp add: distinct_map inj_on_def)
  have apart: "set (map worker_slot (s_roster st))
                 \<inter> set (map worker_slot (map (\<lambda>e. greedy_assignment e req) (chosen B req st)))
               = {}"
    unfolding worker_slot_greedy using chosen_free [of _ B req st] by auto
  show ?thesis
    unfolding s_roster_process_pure map_append
    using assms(2) new apart by (simp only: distinct_append)
qed

lemma distinct_fold_process:
  "distinct (map employee_id (s_employees st)) \<Longrightarrow> distinct (map worker_slot (s_roster st)) \<Longrightarrow>
   distinct (map worker_slot (s_roster (fold (process_pure B) reqs st)))"
  by (induction reqs arbitrary: st) (simp_all add: distinct_process_pure s_employees_process_pure)

lemma worker_slot_locked: "map worker_slot (map locked_assignment fxs) = map fixed_slot fxs"
  by (simp add: worker_slot_def fixed_slot_def locked_assignment_def)

text \<open>
  What does hold for C1: when the worker ids are distinct and the valid fixed assignments
  have distinct (worker, date, day-part) triples, so have the Assignments of the roster.
\<close>

lemma roster_slots_distinct:
  assumes "distinct (map employee_id es)"
    and "distinct (map fixed_slot (valid_fixed (build_blocked_set bls) es fxs))"
    and "solve reqs es fxs bls clk = Inr r"
  shows "distinct (map worker_slot (roster r))"
proof -
  let ?B = "build_blocked_set bls"
  let ?st1 = "lock_pure ?B fxs (initial_state es)"
  have e: "s_employees ?st1 = es" by (simp add: s_employees_lock_pure initial_state_def)
  have "s_roster ?st1 = map locked_assignment (valid_fixed ?B es fxs)"
    by (simp add: lock_pure_def initial_state_def)
  with assms(2) have "distinct (map worker_slot (s_roster ?st1))"
    by (simp only: worker_slot_locked)
  with assms(1) e have "distinct (map worker_slot (s_roster (fold (process_pure ?B) reqs ?st1)))"
    by (intro distinct_fold_process) simp_all
  with assms(3) show ?thesis by (simp add: solve_result final_state_def)
qed

lemma slot_count_nonneg: "0 \<le> slot_count ros d p sid"
  by (simp add: slot_count_def)

lemma overflows_bounded:
  assumes "req_required_count req < 10 ^ int_max_str_digits"
  shows "\<not> overflows B req st"
proof
  assume o: "overflows B req st"
  then have sf: "shortfall B req st" by (simp add: overflows_def)
  let ?sh = "req_required_count req - (cur_count req st + int (length (chosen B req st)))"
  from sf have "0 < ?sh"
    using chosen_length_shortfall [OF sf] by (simp add: shortfall_def)
  moreover have "?sh \<le> req_required_count req"
    using slot_count_nonneg [of "s_roster st" "req_date req" "req_dagdeel req" "req_service_id req"]
    by (simp add: cur_count_def)
  ultimately have "\<not> too_long ?sh"
    using assms by (intro not_too_long) simp_all
  with o show False by (simp add: overflows_def)
qed

lemma any_overflow_bounded:
  "\<forall>req \<in> set reqs. req_required_count req < 10 ^ int_max_str_digits \<Longrightarrow>
   \<not> any_overflow B reqs st"
  by (induction reqs arbitrary: st) (simp_all add: overflows_bounded)

lemma solve_bounded:
  "\<forall>req \<in> set reqs. req_required_count req < 10 ^ int_max_str_digits \<Longrightarrow>
   solve reqs es fxs bls clk = build_result clk reqs (final_state reqs es fxs bls)"
  by (simp add: solve_pure any_overflow_bounded)

lemma solve_error: "solve reqs es fxs bls clk = Inl e \<Longrightarrow> e = ValueError"
  by (simp add: solve_pure build_result_pure split: if_splits)

lemma solve_example_huge: "solve [ex_req_huge] [] [] [] ex_clock = Inl ValueError"
proof -
  let ?st = "lock_pure (build_blocked_set []) [] (initial_state [])"
  have cands: "candidates (build_blocked_set []) ex_req_huge ?st = []"
    by (simp add: candidates_def lock_pure_def initial_state_def)
  have cur: "cur_count ex_req_huge ?st = 0"
    by (simp add: cur_count_def slot_count_def lock_pure_def initial_state_def valid_fixed_def)
  have big: "(0::int) < 10 ^ int_max_str_digits" by simp
  have "overflows (build_blocked_set []) ex_req_huge ?st"
    unfolding overflows_def shortfall_def chosen_def cands cur
    using big too_long_power by (simp add: ex_req_huge_def)
  then show ?thesis by (simp add: solve_pure)
qed

lemma length_bottlenecks_fold:
  "length (s_bottlenecks (fold (process_pure B) reqs st))
     \<le> length (s_bottlenecks st) + length reqs"
proof (induction reqs arbitrary: st)
  case Nil
  then show ?case by simp
next
  case (Cons req reqs)
  have "length (s_bottlenecks (process_pure B req st)) \<le> Suc (length (s_bottlenecks st))"
    by (simp add: s_bottlenecks_process_pure)
  with Cons.IH [of "process_pure B req st"] show ?case by simp
qed

lemma length_bottlenecks_final:
  "length (s_bottlenecks (final_state reqs es fxs bls)) \<le> length reqs"
  using length_bottlenecks_fold
    [of "build_blocked_set bls" reqs "lock_pure (build_blocked_set bls) fxs (initial_state es)"]
  by (simp add: final_state_def s_bottlenecks_lock_pure initial_state_def)

lemma roster_ids_process_pure:
  assumes "\<forall>a \<in> set (s_roster st). a_employee_id a \<in> employee_id ` set (s_employees st)"
  shows "\<forall>a \<in> set (s_roster (process_pure B req st)).
           a_employee_id a \<in> employee_id ` set (s_employees st)"
  using assms chosen_subset [of B req st]
  by (auto simp: s_roster_process_pure greedy_assignment_def)

lemma roster_ids_fold:
  "\<forall>a \<in> set (s_roster st). a_employee_id a \<in> employee_id ` set (s_employees st) \<Longrightarrow>
   \<forall>a \<in> set (s_roster (fold (process_pure B) reqs st)).
     a_employee_id a \<in> employee_id ` set (s_employees st)"
proof (induction reqs arbitrary: st)
  case Nil
  then show ?case by simp
next
  case (Cons req reqs)
  from roster_ids_process_pure [OF Cons.prems, of B req]
  have "\<forall>a \<in> set (s_roster (process_pure B req st)).
           a_employee_id a \<in> employee_id ` set (s_employees (process_pure B req st))"
    by (simp add: s_employees_process_pure)
  from Cons.IH [OF this] show ?case by (simp add: s_employees_process_pure)
qed

lemma roster_ids_final:
  "\<forall>a \<in> set (s_roster (final_state reqs es fxs bls)). a_employee_id a \<in> employee_id ` set es"
proof -
  let ?B = "build_blocked_set bls"
  let ?st1 = "lock_pure ?B fxs (initial_state es)"
  have e: "s_employees ?st1 = es" by (simp add: s_employees_lock_pure initial_state_def)
  have "\<forall>a \<in> set (s_roster ?st1). a_employee_id a \<in> employee_id ` set es"
    using is_valid_assignment_member
    by (auto simp: lock_pure_def initial_state_def valid_fixed_def locked_assignment_def)
  with e have "\<forall>a \<in> set (s_roster ?st1). a_employee_id a \<in> employee_id ` set (s_employees ?st1)"
    by simp
  from roster_ids_fold [OF this, of ?B reqs] e show ?thesis
    by (simp add: final_state_def)
qed

lemma answered_process_pure:
  "answered req (s_roster (process_pure B req st)) (s_bottlenecks (process_pure B req st))"
proof (cases "shortfall B req st")
  case True
  then show ?thesis
    by (simp add: answered_def s_bottlenecks_process_pure bottleneck_for_fields)
next
  case False
  have "req_required_count req
          \<le> slot_count (s_roster (process_pure B req st)) (req_date req) (req_dagdeel req)
              (req_service_id req)"
    using False
    by (auto simp: s_roster_process_pure slot_count_append slot_count_greedy chosen_def
          shortfall_def cur_count_def)
  then show ?thesis by (simp add: answered_def)
qed

lemma answered_mono:
  assumes "answered req' (s_roster st) (s_bottlenecks st)"
  shows "answered req' (s_roster (process_pure B req st)) (s_bottlenecks (process_pure B req st))"
proof -
  have "slot_count (s_roster st) d p sid \<le> slot_count (s_roster (process_pure B req st)) d p sid"
    for d p sid
    using slot_count_nonneg [of "map (\<lambda>e. greedy_assignment e req) (chosen B req st)" d p sid]
    by (simp add: s_roster_process_pure slot_count_append)
  from this [of "req_date req'" "req_dagdeel req'" "req_service_id req'"] assms show ?thesis
    by (auto simp: answered_def s_bottlenecks_process_pure)
qed

lemma answered_fold_mono:
  "answered req' (s_roster st) (s_bottlenecks st) \<Longrightarrow>
   answered req' (s_roster (fold (process_pure B) reqs st))
     (s_bottlenecks (fold (process_pure B) reqs st))"
  by (induction reqs arbitrary: st) (simp_all add: answered_mono)

lemma answered_fold:
  "req \<in> set reqs \<Longrightarrow>
   answered req (s_roster (fold (process_pure B) reqs st))
     (s_bottlenecks (fold (process_pure B) reqs st))"
proof (induction reqs arbitrary: st)
  case Nil
  then show ?case by simp
next
  case (Cons r reqs)
  show ?case
  proof (cases "req = r")
    case True
    then show ?thesis by (simp add: answered_fold_mono answered_process_pure)
  next
    case False
    with Cons.prems have "req \<in> set reqs" by simp
    from Cons.IH [OF this] show ?thesis by simp
  qed
qed

lemma answered_final:
  "req \<in> set reqs \<Longrightarrow>
   answered req (s_roster (final_state reqs es fxs bls)) (s_bottlenecks (final_state reqs es fxs bls))"
  unfolding final_state_def by (rule answered_fold)

lemma coverage_of_range:
  assumes "0 \<le> a" and "a \<le> t"
  shows "0 \<le> coverage_of a t \<and> coverage_of a t \<le> 100"
proof (cases "0 < t")
  case False
  then show ?thesis by (simp add: coverage_of_def)
next
  case True
  with assms show ?thesis by (simp add: coverage_of_def field_simps)
qed

section \<open>Claims\<close>

text \<open>
  C8 (amended): \<^verbatim>\<open>GreedyPlanner.solve\<close> never raises when every required_count is below
  10 to the power of the digit limit of integer printing (4300). For every such list of
  requirements and every list of workers, fixed assignments and blocked slots (empty lists
  and fixed assignments that name unknown workers included) the call returns a Result, and
  the Result is well formed: its counters and coverage are those of its bottleneck list,
  coverage lies between 0 and 100, the locked Assignments are those of the valid fixed
  assignments in their order, every Assignment is for a worker of the list, and every
  requirement is filled or named by a Bottleneck. Whatever the input, the only exception
  that can leave the call is the \<^verbatim>\<open>ValueError\<close> of printing a shortage.
\<close>

theorem solve_returns_below_digit_limit:
  "((\<forall>req \<in> set reqs. req_required_count req < 10 ^ int_max_str_digits) \<longrightarrow>
      (\<exists>r. solve reqs es fxs bls clk = Inr r
         \<and> total_slots r = int (length reqs)
         \<and> assigned_slots r = total_slots r - int (length (bottlenecks r))
         \<and> 0 \<le> assigned_slots r \<and> assigned_slots r \<le> total_slots r
         \<and> 0 \<le> coverage_rate r \<and> coverage_rate r \<le> 100
         \<and> version r = ''2.0.0-DRAAD194'' \<and> timestamp r = now_stamp clk
         \<and> solve_time_seconds r = now_end clk - now_start clk
         \<and> filter is_locked (roster r)
             = map locked_assignment
                 (filter (\<lambda>fx. is_valid_assignment (fx_employee_id fx) (fx_date fx)
                                  (fx_dagdeel fx) (fx_service_id fx) es (build_blocked_set bls))
                    fxs)
         \<and> (\<forall>a \<in> set (roster r). a_employee_id a \<in> employee_id ` set es)
         \<and> (\<forall>req \<in> set reqs. answered req (roster r) (bottlenecks r))))
   \<and> (\<forall>e. solve reqs es fxs bls clk = Inl e \<longrightarrow> e = ValueError)"
proof (intro conjI impI)
  assume bound: "\<forall>req \<in> set reqs. req_required_count req < 10 ^ int_max_str_digits"
  let ?fin = "final_state reqs es fxs bls"
  let ?bs = "s_bottlenecks ?fin"
  have "\<forall>b \<in> set ?bs. shortage b \<noteq> 0"
    using final_bottleneck_shortage [of _ reqs es fxs bls] by fastforce
  then have none: "filter (\<lambda>b. shortage b = 0) ?bs = []"
    by (simp add: filter_empty_conv)
  have len: "int (length ?bs) \<le> int (length reqs)"
    using length_bottlenecks_final [of reqs es fxs bls] by simp
  have cov: "0 \<le> coverage_of (int (length reqs) - int (length ?bs)) (int (length reqs))
           \<and> coverage_of (int (length reqs) - int (length ?bs)) (int (length reqs)) \<le> 100"
    using len by (intro coverage_of_range) simp_all
  have locked: "filter is_locked (s_roster ?fin)
          = map locked_assignment
              (filter (\<lambda>fx. is_valid_assignment (fx_employee_id fx) (fx_date fx) (fx_dagdeel fx)
                               (fx_service_id fx) es (build_blocked_set bls)) fxs)"
    by (simp add: locked_part_final lock_pure_def initial_state_def valid_fixed_def)
  have ans: "\<forall>req \<in> set reqs. answered req (s_roster ?fin) ?bs"
    by (simp add: answered_final)
  show "\<exists>r. solve reqs es fxs bls clk = Inr r
         \<and> total_slots r = int (length reqs)
         \<and> assigned_slots r = total_slots r - int (length (bottlenecks r))
         \<and> 0 \<le> assigned_slots r \<and> assigned_slots r \<le> total_slots r
         \<and> 0 \<le> coverage_rate r \<and> coverage_rate r \<le> 100
         \<and> version r = ''2.0.0-DRAAD194'' \<and> timestamp r = now_stamp clk
         \<and> solve_time_seconds r = now_end clk - now_start clk
         \<and> filter is_locked (roster r)
             = map locked_assignment
                 (filter (\<lambda>fx. is_valid_assignment (fx_employee_id fx) (fx_date fx)
                                  (fx_dagdeel fx) (fx_service_id fx) es (build_blocked_set bls))
                    fxs)
         \<and> (\<forall>a \<in> set (roster r). a_employee_id a \<in> employee_id ` set es)
         \<and> (\<forall>req \<in> set reqs. answered req (roster r) (bottlenecks r))"
    unfolding solve_bounded [OF bound] build_result_pure none
    using len cov locked ans roster_ids_final [of reqs es fxs bls]
    by simp
next
  show "\<forall>e. solve reqs es fxs bls clk = Inl e \<longrightarrow> e = ValueError"
    using solve_error by blast
qed

theorem solve_returns_below_digit_limit_witness:
  "req_required_count ex_req < 10 ^ int_max_str_digits
   \<and> (\<exists>r. solve [ex_req] [ex_e1, ex_e2]
            [ex_fixed, \<lparr>fx_employee_id = ''ghost'', fx_date = ''2024-01-01'',
                        fx_dagdeel = ''nacht'', fx_service_id = ''S'',
                        fx_reason = ''pre-planned''\<rparr>] [] ex_clock = Inr r
          \<and> total_slots r = 1 \<and> assigned_slots r = 1 - int (length (bottlenecks r))
          \<and> answered ex_req (roster r) (bottlenecks r))
   \<and> (\<exists>r. solve [] [] [] [] ex_clock = Inr r \<and> total_slots r = 0 \<and> coverage_rate r \<le> 100)
   \<and> (\<exists>e. solve [ex_req_huge] [] [] [] ex_clock = Inl e \<and> e = ValueError)"
proof -
  have small: "req_required_count ex_req < 10 ^ int_max_str_digits"
    by (rule small_below_limit) (simp add: ex_req_def)
  then have h: "\<forall>req \<in> set [ex_req]. req_required_count req < 10 ^ int_max_str_digits"
    by simp
  have h0: "\<forall>req \<in> set ([] :: RosteringRequirement list).
              req_required_count req < 10 ^ int_max_str_digits"
    by simp
  from solve_returns_below_digit_limit [of "[ex_req]" "[ex_e1, ex_e2]"
         "[ex_fixed, \<lparr>fx_employee_id = ''ghost'', fx_date = ''2024-01-01'',
                      fx_dagdeel = ''nacht'', fx_service_id = ''S'',
                      fx_reason = ''pre-planned''\<rparr>]" "[]" ex_clock] h
  have 1: "\<exists>r. solve [ex_req] [ex_e1, ex_e2]
            [ex_fixed, \<lparr>fx_employee_id = ''ghost'', fx_date = ''2024-01-01'',
                        fx_dagdeel = ''nacht'', fx_service_id = ''S'',
                        fx_reason = ''pre-planned''\<rparr>] [] ex_clock = Inr r
          \<and> total_slots r = 1 \<and> assigned_slots r = 1 - int (length (bottlenecks r))
          \<and> answered ex_req (roster r) (bottlenecks r)"
    by auto
  from solve_returns_below_digit_limit [of "[]" "[]" "[]" "[]" ex_clock] h0
  have 2: "\<exists>r. solve [] [] [] [] ex_clock = Inr r \<and> total_slots r = 0 \<and> coverage_rate r \<le> 100"
    by auto
  obtain e where e: "solve [ex_req_huge] [] [] [] ex_clock = Inl e"
    using solve_example_huge by blast
  with solve_returns_below_digit_limit [of "[ex_req_huge]" "[]" "[]" "[]" ex_clock]
  have 3: "\<exists>e. solve [ex_req_huge] [] [] [] ex_clock = Inl e \<and> e = ValueError"
    by blast
  from small 1 2 3 show ?thesis by blast
qed

text \<open>
  C8 as stated fails: one requirement for 10 to the power 4300 workers and no worker at
  all leaves a shortage of 4301 digits, and the f-string of \<^verbatim>\<open>_suggest_solutions\<close> that
  prints it raises \<^verbatim>\<open>ValueError\<close>.
\<close>

theorem solve_raises_counterexample:
  "solve [ex_req_huge] [] [] [] ex_clock = Inl ValueError"
  by (rule solve_example_huge)

text \<open>
  C7: \<^verbatim>\<open>GreedyPlanner.solve\<close> is deterministic up to the clock. Two runs on the same
  requirements, workers, fixed assignments and blocked slots, whatever the clock reads in
  each, either raise the same exception or both return a Result, and then the two Results
  agree on roster, bottlenecks, coverage_rate, total_slots, assigned_slots and version.
  When every required_count is below 10 to the power of the digit limit, both runs return.
\<close>

theorem solve_deterministic:
  "((\<exists>e. solve reqs es fxs bls clk1 = Inl e \<and> solve reqs es fxs bls clk2 = Inl e)
    \<or> (\<exists>r1 r2. solve reqs es fxs bls clk1 = Inr r1 \<and> solve reqs es fxs bls clk2 = Inr r2
          \<and> roster r1 = roster r2 \<and> bottlenecks r1 = bottlenecks r2
          \<and> coverage_rate r1 = coverage_rate r2 \<and> total_slots r1 = total_slots r2
          \<and> assigned_slots r1 = assigned_slots r2 \<and> version r1 = version r2))
   \<and> ((\<forall>req \<in> set reqs. req_required_count req < 10 ^ int_max_str_digits) \<longrightarrow>
        (\<exists>r1 r2. solve reqs es fxs bls clk1 = Inr r1 \<and> solve reqs es fxs bls clk2 = Inr r2
          \<and> roster r1 = roster r2 \<and> bottlenecks r1 = bottlenecks r2
          \<and> coverage_rate r1 = coverage_rate r2 \<and> total_slots r1 = total_slots r2
          \<and> assigned_slots r1 = assigned_slots r2 \<and> version r1 = version r2))"
proof (rule conjI)
  show "(\<exists>e. solve reqs es fxs bls clk1 = Inl e \<and> solve reqs es fxs bls clk2 = Inl e)
    \<or> (\<exists>r1 r2. solve reqs es fxs bls clk1 = Inr r1 \<and> solve reqs es fxs bls clk2 = Inr r2
          \<and> roster r1 = roster r2 \<and> bottlenecks r1 = bottlenecks r2
          \<and> coverage_rate r1 = coverage_rate r2 \<and> total_slots r1 = total_slots r2
          \<and> assigned_slots r1 = assigned_slots r2 \<and> version r1 = version r2)"
    by (simp add: solve_pure build_result_pure)
next
  show "(\<forall>req \<in> set reqs. req_required_count req < 10 ^ int_max_str_digits) \<longrightarrow>
        (\<exists>r1 r2. solve reqs es fxs bls clk1 = Inr r1 \<and> solve reqs es fxs bls clk2 = Inr r2
          \<and> roster r1 = roster r2 \<and> bottlenecks r1 = bottlenecks r2
          \<and> coverage_rate r1 = coverage_rate r2 \<and> total_slots r1 = total_slots r2
          \<and> assigned_slots r1 = assigned_slots r2 \<and> version r1 = version r2)"
    by (simp add: solve_bounded build_result_pure)
qed

theorem solve_deterministic_witness:
  "req_required_count ex_req < 10 ^ int_max_str_digits
   \<and> (\<exists>r1 r2. solve [ex_req] [ex_e1, ex_e2] [ex_fixed] [] ex_clock = Inr r1
      \<and> solve [ex_req] [ex_e1, ex_e2] [ex_fixed] [] ex_clock2 = Inr r2
      \<and> roster r1 = roster r2 \<and> bottlenecks r1 = bottlenecks r2
      \<and> coverage_rate r1 = coverage_rate r2 \<and> total_slots r1 = total_slots r2
      \<and> assigned_slots r1 = assigned_slots r2 \<and> version r1 = version r2)
   \<and> solve [ex_req_huge] [] [] [] ex_clock = Inl ValueError
   \<and> solve [ex_req_huge] [] [] [] ex_clock2 = Inl ValueError"
proof -
  have small: "req_required_count ex_req < 10 ^ int_max_str_digits"
    by (rule small_below_limit) (simp add: ex_req_def)
  with solve_deterministic [of "[ex_req]" "[ex_e1, ex_e2]" "[ex_fixed]" "[]" ex_clock ex_clock2]
  have both: "\<exists>r1 r2. solve [ex_req] [ex_e1, ex_e2] [ex_fixed] [] ex_clock = Inr r1
      \<and> solve [ex_req] [ex_e1, ex_e2] [ex_fixed] [] ex_clock2 = Inr r2
      \<and> roster r1 = roster r2 \<and> bottlenecks r1 = bottlenecks r2
      \<and> coverage_rate r1 = coverage_rate r2 \<and> total_slots r1 = total_slots r2
      \<and> assigned_slots r1 = assigned_slots r2 \<and> version r1 = version r2"
    by simp
  from solve_deterministic [of "[ex_req_huge]" "[]" "[]" "[]" ex_clock ex_clock2]
    solve_example_huge
  have "solve [ex_req_huge] [] [] [] ex_clock2 = Inl ValueError"
    by auto
  with small both solve_example_huge show ?thesis by blast
qed

text \<open>
  C4: every Bottleneck of the returned Result has a strictly positive shortage, equal to
  required_count minus placed_count; and a requirement whose slot count already meets or
  exceeds its required_count is passed over with the state unchanged, so that no
  Bottleneck is created for it.
\<close>

theorem bottleneck_shortage_positive:
  "(solve reqs es fxs bls clk = Inr r \<longrightarrow>
      (\<forall>b \<in> set (bottlenecks r).
         0 < shortage b \<and> shortage b = bn_required_count b - placed_count b))
   \<and> (req_required_count req
         \<le> slot_count (s_roster st) (req_date req) (req_dagdeel req) (req_service_id req) \<longrightarrow>
       process_requirement B req st = Inr st)"
proof (rule conjI)
  show "solve reqs es fxs bls clk = Inr r \<longrightarrow>
      (\<forall>b \<in> set (bottlenecks r).
         0 < shortage b \<and> shortage b = bn_required_count b - placed_count b)"
  proof (intro impI ballI)
    fix b
    assume "solve reqs es fxs bls clk = Inr r" and "b \<in> set (bottlenecks r)"
    then have "b \<in> set (s_bottlenecks (final_state reqs es fxs bls))"
      by (simp add: solve_result)
    then show "0 < shortage b \<and> shortage b = bn_required_count b - placed_count b"
      by (rule final_bottleneck_shortage)
  qed
next
  show "req_required_count req
          \<le> slot_count (s_roster st) (req_date req) (req_dagdeel req) (req_service_id req) \<longrightarrow>
        process_requirement B req st = Inr st"
    by (simp add: process_requirement_def)
qed

theorem bottleneck_shortage_positive_witness:
  "solve [ex_req] [ex_e1, ex_e2] [ex_fixed] [] ex_clock = Inr ex_result
   \<and> bottlenecks ex_result = [ex_bottleneck]
   \<and> 0 < shortage ex_bottleneck
   \<and> shortage ex_bottleneck = bn_required_count ex_bottleneck - placed_count ex_bottleneck
   \<and> req_required_count ex_req_met
        \<le> slot_count ex_roster (req_date ex_req_met) (req_dagdeel ex_req_met)
            (req_service_id ex_req_met)
   \<and> process_requirement {} ex_req_met ((initial_state [ex_e1, ex_e2])\<lparr>s_roster := ex_roster\<rparr>)
        = Inr ((initial_state [ex_e1, ex_e2])\<lparr>s_roster := ex_roster\<rparr>)"
proof -
  have run: "solve [ex_req] [ex_e1, ex_e2] [ex_fixed] [] ex_clock = Inr ex_result"
    by (rule solve_example)
  have bs: "bottlenecks ex_result = [ex_bottleneck]" by (simp add: ex_result_def)
  have met: "req_required_count ex_req_met
        \<le> slot_count (s_roster ((initial_state [ex_e1, ex_e2])\<lparr>s_roster := ex_roster\<rparr>))
            (req_date ex_req_met) (req_dagdeel ex_req_met) (req_service_id ex_req_met)"
    by (simp add: ex_req_met_def ex_req_def ex_roster_def slot_count_def)
  from bottleneck_shortage_positive
         [of "[ex_req]" "[ex_e1, ex_e2]" "[ex_fixed]" "[]" ex_clock ex_result ex_req_met
             "(initial_state [ex_e1, ex_e2])\<lparr>s_roster := ex_roster\<rparr>" "{}"]
       run bs met
  show ?thesis by simp
qed

text \<open>
  C3: in the returned Result, total_slots is the number of requirements, assigned_slots is
  total_slots minus the number of bottlenecks, and coverage_rate is
  assigned_slots / total_slots * 100 when total_slots is positive and 0 otherwise.
\<close>

theorem result_metrics:
  assumes "solve reqs es fxs bls clk = Inr r"
  shows "total_slots r = int (length reqs)
       \<and> assigned_slots r = total_slots r - int (length (bottlenecks r))
       \<and> coverage_rate r =
           (if total_slots r > 0
            then real_of_int (assigned_slots r) / real_of_int (total_slots r) * 100 else 0)"
proof -
  let ?bs = "s_bottlenecks (final_state reqs es fxs bls)"
  have "\<forall>b \<in> set ?bs. shortage b \<noteq> 0"
    using final_bottleneck_shortage [of _ reqs es fxs bls] by fastforce
  then have none: "filter (\<lambda>b. shortage b = 0) ?bs = []"
    by (simp add: filter_empty_conv)
  from solve_Inr [OF assms] show ?thesis
    by (auto simp: build_result_pure none coverage_of_def)
qed

theorem result_metrics_witness:
  "solve [ex_req_met, ex_req] [ex_e1, ex_e2] [ex_fixed] [] ex_clock = Inr ex_result2
   \<and> total_slots ex_result2 = 2 \<and> length (bottlenecks ex_result2) = 1
   \<and> assigned_slots ex_result2 = 1 \<and> coverage_rate ex_result2 = 50"
  using result_metrics [OF solve_example2] solve_example2
  by (simp add: ex_result2_def ex_result_def)

text \<open>
  C5 (amended): the reason of every Bottleneck is classified as the claim says, with the
  texts the engine writes, which start with a capital letter: when no worker of the input
  is capable of the service, \<open>No employees capable of this service\<close>; else when every capable
  worker is in the blocked index for the date and day-part,
  \<open>All capable employees are blocked/unavailable\<close>; otherwise
  \<open>Insufficient eligible employees for this slot\<close>.
\<close>

theorem bottleneck_reason_classified:
  assumes "solve reqs es fxs bls clk = Inr r"
  shows "\<forall>b \<in> set (bottlenecks r).
           reason b =
             (if \<not> (\<exists>e \<in> set es. capable e (bn_service_id b))
                then ''No employees capable of this service''
              else if \<forall>e \<in> set es. capable e (bn_service_id b) \<longrightarrow>
                        (employee_id e, bn_date b, bn_dagdeel b) \<in> build_blocked_set bls
                then ''All capable employees are blocked/unavailable''
              else ''Insufficient eligible employees for this slot'')"
proof
  fix b
  assume "b \<in> set (bottlenecks r)"
  with assms have "b \<in> set (s_bottlenecks (final_state reqs es fxs bls))"
    by (simp add: solve_result)
  from bottlenecks_final [OF this] obtain req st
    where st: "s_employees st = es"
      and b: "b = bottleneck_for (build_blocked_set bls) req st"
    by blast
  show "reason b =
             (if \<not> (\<exists>e \<in> set es. capable e (bn_service_id b))
                then ''No employees capable of this service''
              else if \<forall>e \<in> set es. capable e (bn_service_id b) \<longrightarrow>
                        (employee_id e, bn_date b, bn_dagdeel b) \<in> build_blocked_set bls
                then ''All capable employees are blocked/unavailable''
              else ''Insufficient eligible employees for this slot'')"
    unfolding b bottleneck_for_fields st
    by (rule analyze_bottleneck_reason_cases)
qed

theorem bottleneck_reason_classified_witness:
  "solve [ex_req] [ex_e1, ex_e2] [ex_fixed] [] ex_clock = Inr ex_result
   \<and> bottlenecks ex_result = [ex_bottleneck]
   \<and> reason ex_bottleneck = ''Insufficient eligible employees for this slot''"
  using bottleneck_reason_classified [OF solve_example] solve_example
  by (simp add: ex_result_def ex_bottleneck_def)

text \<open>
  C5 as stated fails on the texts: with one requirement and no worker at all, the claim
  asks for the reason \<open>no employees capable of this service\<close>, and the engine writes
  \<open>No employees capable of this service\<close>.
\<close>

theorem bottleneck_reason_counterexample:
  "solve [ex_req] [] [] [] ex_clock = Inr ex_result_B
   \<and> bottlenecks ex_result_B = [ex_bottleneck_B]
   \<and> spec_reason [] (build_blocked_set []) (bn_date ex_bottleneck_B) (bn_dagdeel ex_bottleneck_B)
        (bn_service_id ex_bottleneck_B) = ''no employees capable of this service''
   \<and> reason ex_bottleneck_B \<noteq> ''no employees capable of this service''"
  by (simp add: solve_example_B ex_result_B_def ex_bottleneck_B_def spec_reason_def)

text \<open>
  C10: an Assignment of the returned roster is locked exactly when its source is
  \<open>pre-planned\<close>. The roster is the roster of phase 1, all of whose entries are locked with
  source \<open>pre-planned\<close>, followed by the entries of the greedy phase, all of which are
  unlocked with source \<open>greedy\<close>.
\<close>

theorem locked_iff_preplanned:
  assumes "solve reqs es fxs bls clk = Inr r"
  shows "\<exists>st1 G. lock_preplanned (build_blocked_set bls) fxs (initial_state es) = Inr st1
           \<and> roster r = s_roster st1 @ G
           \<and> (\<forall>a \<in> set (s_roster st1). is_locked a \<and> source a = ''pre-planned'')
           \<and> (\<forall>a \<in> set G. \<not> is_locked a \<and> source a = ''greedy'')
           \<and> (\<forall>a \<in> set (roster r). is_locked a \<longleftrightarrow> source a = ''pre-planned'')"
proof -
  let ?B = "build_blocked_set bls"
  let ?st1 = "lock_pure ?B fxs (initial_state es)"
  have 1: "lock_preplanned ?B fxs (initial_state es) = Inr ?st1"
    by (simp add: lock_preplanned_spec keys_ok_initial)
  have 2: "\<forall>a \<in> set (s_roster ?st1). is_locked a \<and> source a = ''pre-planned''"
    by (auto simp: lock_pure_def initial_state_def locked_assignment_def)
  from roster_fold_process [of ?B reqs ?st1] obtain G
    where 3: "s_roster (final_state reqs es fxs bls) = s_roster ?st1 @ G"
      and 4: "\<forall>a \<in> set G. \<not> is_locked a \<and> source a = ''greedy''"
    unfolding final_state_def by blast
  from assms 3 have 5: "roster r = s_roster ?st1 @ G" by (simp add: solve_result)
  have 6: "\<forall>a \<in> set (roster r). is_locked a \<longleftrightarrow> source a = ''pre-planned''"
    unfolding 5 using 2 4 by auto
  from 1 2 4 5 6 show ?thesis by blast
qed

theorem locked_iff_preplanned_witness:
  "solve [ex_req] [ex_e1, ex_e2] [ex_fixed] [] ex_clock = Inr ex_result
   \<and> map is_locked (roster ex_result) = [True, False]
   \<and> map source (roster ex_result) = [''pre-planned'', ''greedy'']"
  using locked_iff_preplanned [OF solve_example] solve_example
  by (simp add: ex_result_def ex_roster_def)

text \<open>
  C2 (amended): for every input and every slot (date, day-part, service id), the number of
  Assignments of the final roster for the slot never exceeds the larger of the number of
  locked Assignments for it and the largest required_count among the requirements that
  target it. For a requirement whose slot holds at most required_count locked Assignments,
  and for whose slot no requirement asks for more, the number never exceeds its
  required_count.
\<close>

theorem slot_count_bounded:
  assumes "solve reqs es fxs bls clk = Inr r"
  shows "slot_count (roster r) d p sid
           \<le> required_cap reqs d p sid (slot_count (filter is_locked (roster r)) d p sid)
       \<and> (\<forall>req \<in> set reqs.
            slot_count (filter is_locked (roster r)) (req_date req) (req_dagdeel req)
                (req_service_id req) \<le> req_required_count req
            \<and> (\<forall>q \<in> set reqs. req_date q = req_date req \<and> req_dagdeel q = req_dagdeel req
                   \<and> req_service_id q = req_service_id req
                   \<longrightarrow> req_required_count q \<le> req_required_count req)
            \<longrightarrow> slot_count (roster r) (req_date req) (req_dagdeel req) (req_service_id req)
                  \<le> req_required_count req)"
proof -
  have r: "roster r = s_roster (final_state reqs es fxs bls)"
    using assms by (simp add: solve_result)
  have bound: "slot_count (roster r) d' p' sid'
           \<le> required_cap reqs d' p' sid' (slot_count (filter is_locked (roster r)) d' p' sid')"
    for d' p' sid'
    unfolding r locked_part_final
    unfolding final_state_def by (rule slot_count_fold_process)
  show ?thesis
  proof (intro conjI ballI impI)
    show "slot_count (roster r) d p sid
           \<le> required_cap reqs d p sid (slot_count (filter is_locked (roster r)) d p sid)"
      by (rule bound)
  next
    fix req :: RosteringRequirement
    assume h: "slot_count (filter is_locked (roster r)) (req_date req) (req_dagdeel req)
                (req_service_id req) \<le> req_required_count req
            \<and> (\<forall>q \<in> set reqs. req_date q = req_date req \<and> req_dagdeel q = req_dagdeel req
                   \<and> req_service_id q = req_service_id req
                   \<longrightarrow> req_required_count q \<le> req_required_count req)"
    have "required_cap reqs (req_date req) (req_dagdeel req) (req_service_id req)
            (slot_count (filter is_locked (roster r)) (req_date req) (req_dagdeel req)
                (req_service_id req)) \<le> req_required_count req"
      using h by (intro required_cap_le) auto
    with bound [of "req_date req" "req_dagdeel req" "req_service_id req"]
    show "slot_count (roster r) (req_date req) (req_dagdeel req) (req_service_id req)
                  \<le> req_required_count req"
      by simp
  qed
qed

theorem slot_count_bounded_witness:
  "solve [ex_req] [ex_e1, ex_e2] [ex_fixed] [] ex_clock = Inr ex_result
   \<and> slot_count (roster ex_result) ''2024-01-01'' ''ochtend'' ''S'' = 2
   \<and> required_cap [ex_req] ''2024-01-01'' ''ochtend'' ''S''
        (slot_count (filter is_locked (roster ex_result)) ''2024-01-01'' ''ochtend'' ''S'') = 3
   \<and> slot_count (roster ex_result) (req_date ex_req) (req_dagdeel ex_req) (req_service_id ex_req)
        \<le> req_required_count ex_req"
  using slot_count_bounded [OF solve_example, of "''2024-01-01''" "''ochtend''" "''S''"]
    solve_example
  by (simp add: ex_result_def ex_roster_def ex_req_def slot_count_def required_cap_def)

text \<open>
  C2 as stated fails: two valid pre-planned assignments for the slot of a requirement that
  asks for one worker are both locked, so the roster holds two Assignments for it.
\<close>

theorem slot_count_counterexample:
  "solve [ex_req_met] [ex_e1, ex_e2] [ex_fixed, ex_fixed2] [] ex_clock = Inr ex_result_over
   \<and> slot_count (roster ex_result_over) (req_date ex_req_met) (req_dagdeel ex_req_met)
        (req_service_id ex_req_met) = 2
   \<and> req_required_count ex_req_met = 1
   \<and> \<not> slot_count (roster ex_result_over) (req_date ex_req_met) (req_dagdeel ex_req_met)
          (req_service_id ex_req_met) \<le> req_required_count ex_req_met"
proof (intro conjI)
  show "solve [ex_req_met] [ex_e1, ex_e2] [ex_fixed, ex_fixed2] [] ex_clock = Inr ex_result_over"
    by (rule solve_example_over)
qed (simp_all add: ex_result_over_def ex_roster_over_def ex_req_met_def ex_req_def slot_count_def)

text \<open>
  C6 (amended): a solve invocation leaves the WorkerCapability records as they were handed
  in, the \<^verbatim>\<open>current_shifts\<close> field included. The running count is kept in the table
  \<^verbatim>\<open>assignment_count\<close> of the invocation, keyed by worker id: when phase 2 ends, its
  entry for every worker is the number of Assignments of the roster for that worker id.
\<close>

theorem running_count_in_table:
  assumes "solve_state reqs es fxs bls = Inr st"
  shows "s_employees st = es
       \<and> map current_shifts (s_employees st) = map current_shifts es
       \<and> (\<forall>e \<in> set es. s_assignment_count st (employee_id e)
                           = Some (worker_count (s_roster st) (employee_id e)))"
proof -
  from assms have st: "st = final_state reqs es fxs bls"
    by (rule solve_state_Inr)
  have emps: "s_employees st = es" unfolding st by (rule s_employees_final)
  have "s_assignment_count st (employee_id e) = Some (worker_count (s_roster st) (employee_id e))"
    if "e \<in> set es" for e
  proof -
    from that keys_ok_final [of reqs es fxs bls] emps
    have "employee_id e \<in> dom (s_assignment_count st)"
      unfolding st keys_ok_def by auto
    then obtain n where n: "s_assignment_count st (employee_id e) = Some n" by auto
    then have "get0 (s_assignment_count st) (employee_id e) = n" by (simp add: get0_def)
    with count_inv_final [of reqs es fxs bls "employee_id e"] n show ?thesis
      unfolding st by simp
  qed
  with emps show ?thesis by simp
qed

theorem running_count_in_table_witness:
  "map_sum id s_roster (solve_state [ex_req] [ex_e1, ex_e2] [ex_fixed] []) = Inr ex_roster
   \<and> map_sum id s_employees (solve_state [ex_req] [ex_e1, ex_e2] [ex_fixed] [])
        = Inr [ex_e1, ex_e2]
   \<and> worker_count ex_roster ''e1'' = 1"
proof -
  obtain st where st: "solve_state [ex_req] [ex_e1, ex_e2] [ex_fixed] [] = Inr st"
    using solve_state_example
    by (cases "solve_state [ex_req] [ex_e1, ex_e2] [ex_fixed] []") auto
  from running_count_in_table [OF st] have "s_employees st = [ex_e1, ex_e2]" by simp
  with st solve_state_example show ?thesis
    by (simp add: worker_count_def ex_roster_def)
qed

text \<open>
  C6 as stated fails: in the sample run worker \<open>e1\<close> is committed once, and the
  \<^verbatim>\<open>current_shifts\<close> of its record is 0 after the run as before it.
\<close>

theorem current_shifts_counterexample:
  "map_sum id s_roster (solve_state [ex_req] [ex_e1, ex_e2] [ex_fixed] []) = Inr ex_roster
   \<and> map a_employee_id ex_roster = [''e1'', ''e2'']
   \<and> map_sum id s_employees (solve_state [ex_req] [ex_e1, ex_e2] [ex_fixed] [])
        = Inr [ex_e1, ex_e2]
   \<and> map current_shifts [ex_e1, ex_e2] = [0, 0]"
  using solve_state_example by (simp add: ex_roster_def ex_e1_def ex_e2_def)

text \<open>
  C9: neither the validation of fixed assignments nor the eligibility filter reads a
  worker's \<^verbatim>\<open>available_dates\<close>, \<^verbatim>\<open>max_shifts_per_week\<close> or \<^verbatim>\<open>current_shifts\<close>:
  replacing the three fields by arbitrary values changes neither their answers nor the
  Result of \<^verbatim>\<open>solve\<close>. So a worker who can do the service and is the only candidate is
  committed to a requirement's slot, and a pre-planned assignment of that worker is locked,
  whatever the three fields hold.
\<close>

theorem schedule_fields_unread:
  "is_valid_assignment eid d p sid (map (with_schedule A M C) es) B
     = is_valid_assignment eid d p sid es B
   \<and> find_eligible_employees d p sid (map (with_schedule A M C) es) ros B t
     = map (with_schedule A M C) (find_eligible_employees d p sid es ros B t)
   \<and> solve reqs (map (with_schedule A M C) es) fxs bls clk = solve reqs es fxs bls clk
   \<and> (capable e sid \<longrightarrow>
        (\<exists>r. solve [\<lparr>req_date = d, req_dagdeel = p, req_service_id = sid,
                       req_required_count = 1, req_team = []\<rparr>] [e] [] [] clk = Inr r
            \<and> map a_employee_id (roster r) = [employee_id e] \<and> bottlenecks r = [])
      \<and> (\<exists>r. solve [] [e]
                 [\<lparr>fx_employee_id = employee_id e, fx_date = d, fx_dagdeel = p,
                   fx_service_id = sid, fx_reason = ''pre-planned''\<rparr>] [] clk = Inr r
            \<and> map a_employee_id (roster r) = [employee_id e] \<and> map is_locked (roster r) = [True]))"
proof (intro conjI impI)
  show "is_valid_assignment eid d p sid (map (with_schedule A M C) es) B
     = is_valid_assignment eid d p sid es B"
    by (rule is_valid_assignment_keeps_view) (rule keeps_view_with_schedule)
  show "find_eligible_employees d p sid (map (with_schedule A M C) es) ros B t
     = map (with_schedule A M C) (find_eligible_employees d p sid es ros B t)"
    by (rule find_eligible_keeps_view) (rule keeps_view_with_schedule)
  show "solve reqs (map (with_schedule A M C) es) fxs bls clk = solve reqs es fxs bls clk"
    by (rule solve_keeps_view) (rule keeps_view_with_schedule)
next
  assume "capable e sid"
  then show "\<exists>r. solve [\<lparr>req_date = d, req_dagdeel = p, req_service_id = sid,
                       req_required_count = 1, req_team = []\<rparr>] [e] [] [] clk = Inr r
            \<and> map a_employee_id (roster r) = [employee_id e] \<and> bottlenecks r = []"
    by (simp add: solve_def solve_state_def build_result_def initial_state_def
          build_blocked_set_def process_requirement_def slot_count_def incr_def
          greedy_assignment_def py_truediv_def)
next
  assume "capable e sid"
  then show "\<exists>r. solve [] [e]
                 [\<lparr>fx_employee_id = employee_id e, fx_date = d, fx_dagdeel = p,
                   fx_service_id = sid, fx_reason = ''pre-planned''\<rparr>] [] clk = Inr r
            \<and> map a_employee_id (roster r) = [employee_id e] \<and> map is_locked (roster r) = [True]"
    by (simp add: solve_def solve_state_def build_result_def initial_state_def
          build_blocked_set_def is_valid_assignment_def incr_def locked_assignment_def)
qed

theorem schedule_fields_unread_witness:
  "capable ex_busy ''S'' \<and> ''2024-01-01'' \<notin> available_dates ex_busy
   \<and> max_shifts_per_week ex_busy < current_shifts ex_busy
   \<and> (\<exists>r. solve [ex_req_met] [ex_busy] [] [] ex_clock = Inr r
          \<and> map a_employee_id (roster r) = [''e1''] \<and> map a_date (roster r) = [''2024-01-01''])
   \<and> (\<exists>r. solve [] [ex_busy] [ex_fixed] [] ex_clock = Inr r
          \<and> map a_employee_id (roster r) = [''e1''] \<and> map is_locked (roster r) = [True])"
proof -
  have c: "capable ex_busy ''S''" by (simp add: ex_busy_def ex_e1_def capable_def)
  have wid: "employee_id ex_busy = ''e1''" by (simp add: ex_busy_def ex_e1_def)
  have rq: "ex_req_met = \<lparr>req_date = ''2024-01-01'', req_dagdeel = ''ochtend'',
      req_service_id = ''S'', req_required_count = 1, req_team = []\<rparr>"
    by (simp add: ex_req_met_def ex_req_def)
  have fx: "ex_fixed = \<lparr>fx_employee_id = employee_id ex_busy, fx_date = ''2024-01-01'',
      fx_dagdeel = ''ochtend'', fx_service_id = ''S'', fx_reason = ''pre-planned''\<rparr>"
    by (simp add: ex_fixed_def wid)
  from schedule_fields_unread [of "''e1''" "''2024-01-01''" "''ochtend''" "''S''"
         "\<lambda>e. {}" "\<lambda>e. 40" "\<lambda>e. 0" "[]" "{}" "[]" "[]" "[]" "[]" "[]" ex_clock ex_busy] c
  have g: "\<exists>r. solve [ex_req_met] [ex_busy] [] [] ex_clock = Inr r
          \<and> map a_employee_id (roster r) = [employee_id ex_busy] \<and> bottlenecks r = []"
    and l: "\<exists>r. solve [] [ex_busy] [ex_fixed] [] ex_clock = Inr r
          \<and> map a_employee_id (roster r) = [employee_id ex_busy] \<and> map is_locked (roster r) = [True]"
    unfolding rq fx by blast+
  from g obtain r where r: "solve [ex_req_met] [ex_busy] [] [] ex_clock = Inr r"
    and ids: "map a_employee_id (roster r) = [employee_id ex_busy]" by auto
  have d: "map a_date (roster r) = [''2024-01-01'']"
    using r
    by (auto simp: solve_def solve_state_def build_result_def initial_state_def
          build_blocked_set_def process_requirement_def slot_count_def incr_def
          greedy_assignment_def py_truediv_def ex_req_met_def ex_req_def ex_busy_def ex_e1_def
          capable_def)
  have a: "''2024-01-01'' \<notin> available_dates ex_busy
           \<and> max_shifts_per_week ex_busy < current_shifts ex_busy"
    by (simp add: ex_busy_def)
  from r ids d have g': "\<exists>r. solve [ex_req_met] [ex_busy] [] [] ex_clock = Inr r
          \<and> map a_employee_id (roster r) = [''e1''] \<and> map a_date (roster r) = [''2024-01-01'']"
    unfolding wid by auto
  from l have l': "\<exists>r. solve [] [ex_busy] [ex_fixed] [] ex_clock = Inr r
          \<and> map a_employee_id (roster r) = [''e1''] \<and> map is_locked (roster r) = [True]"
    unfolding wid .
  from c a g' l' show ?thesis by (intro conjI) simp_all
qed

text \<open>
  C1 fails in phase 1: a worker who can do services \<open>S\<close> and \<open>T\<close>, with a valid
  pre-planned assignment for each in the same day-part, is locked into both, and the
  roster holds the triple of that worker, date and day-part twice.
\<close>

theorem double_booking_evaluated:
  "solve [] [ex_multi] [ex_fixed, ex_fixed_T] [] ex_clock = Inr ex_result_double
   \<and> map worker_slot (roster ex_result_double)
       = [(''e1'', ''2024-01-01'', ''ochtend''), (''e1'', ''2024-01-01'', ''ochtend'')]
   \<and> \<not> distinct (map worker_slot (roster ex_result_double))"
proof (intro conjI)
  show "solve [] [ex_multi] [ex_fixed, ex_fixed_T] [] ex_clock = Inr ex_result_double"
    by (rule solve_example_double)
qed (simp_all add: ex_result_double_def ex_roster_double_def worker_slot_def)

end
